theory Spec2Isabelle
  imports Complex_Main "HOL-Library.Word"
begin

section \<open>The AGC engine of rtl\_sdr.c\<close>

text \<open>
  The file src/rtl\_sdr.c records I/Q samples of an RTL2832 receiver. With a negative
  gain argument it runs a software gain control: the sample callback tracks the peak
  power of a window of samples, adds the distance to the target to an accumulator and
  wakes a thread, which moves an index into the tuner's gain table by one step once the
  accumulator has left a band of 300 units.

  The C \<open>int\<close>s of the file are modelled as \<open>int\<close>. The values handled are table
  scores (between \<open>- 971\<close> and 93), indices into an array of 100 and a sample counter
  below \<open>2^32 / 5\<close>; the accumulator alone grows without a bound in the code, and its
  sum is wrapped to 32 bits (\<open>c_int\<close>). Bytes of the sample buffer are \<open>8 word\<close>.
\<close>

type_synonym u8 = "8 word"

subsection \<open>The power table (lines 44--64)\<close>

definition DBFS_MIN :: int where
  "DBFS_MIN = - 480"

text \<open>
  C converts a floating-point value to \<open>int\<close> by discarding the fractional part
  (truncation towards zero).
\<close>

definition c_float_to_int :: "real \<Rightarrow> int" where
  "c_float_to_int x = (if 0 \<le> x then \<lfloor>x\<rfloor> else \<lceil>x\<rceil>)"

text \<open>
  Line 59, \<open>dbfs = 100 * logf((float)mag / 16384.0)\<close>. A float is modelled as the real
  number it denotes. The quotient is exact (\<open>mag\<close> has at most 16 bits and 16384 is a
  power of two). The two single-precision operations are the C library's and the
  processor's, and not code of the file: \<open>logf\<close> and the rounding \<open>rnd\<close> of the
  product to a float are parameters of the model. The instance \<open>ln\<close>, \<open>id\<close> is the
  computation in exact arithmetic.
\<close>

definition dbfs_of_mag :: "(real \<Rightarrow> real) \<Rightarrow> (real \<Rightarrow> real) \<Rightarrow> int \<Rightarrow> int" where
  "dbfs_of_mag logf rnd mag = c_float_to_int (rnd (100 * logf (real_of_int mag / 16384)))"

text \<open>The body of the two loops: the entry stored at \<open>dbfs_lut[i][q]\<close>.\<close>

definition dbfs_cell :: "(real \<Rightarrow> real) \<Rightarrow> (real \<Rightarrow> real) \<Rightarrow> int \<Rightarrow> int \<Rightarrow> int" where
  "dbfs_cell logf rnd i q =
     (let centered_i = i - 158;
          centered_i_squared = centered_i * centered_i;
          centered_q = q - 128;
          mag = centered_i_squared + (centered_q * centered_q);
          dbfs = DBFS_MIN
      in if mag > 0 then dbfs_of_mag logf rnd mag else dbfs)"

text \<open>
  \<open>dbfs_lut_init\<close>: the loops over \<open>i\<close> and \<open>q\<close> from 0 to 255 fill the 256 by 256
  array, row \<open>i\<close>, column \<open>q\<close>.
\<close>

definition dbfs_lut_init :: "(real \<Rightarrow> real) \<Rightarrow> (real \<Rightarrow> real) \<Rightarrow> int list list" where
  "dbfs_lut_init logf rnd =
     map (\<lambda>i. map (\<lambda>q. dbfs_cell logf rnd (int i) (int q)) [0..<256]) [0..<256]"

text \<open>The read \<open>dbfs_lut[i][q]\<close> with two bytes as indices (line 234).\<close>

definition lut_at :: "int list list \<Rightarrow> u8 \<Rightarrow> u8 \<Rightarrow> int" where
  "lut_at lut i q = lut ! unat i ! unat q"

text \<open>
  The entry the specification describes: the sentinel at magnitude zero, otherwise
  \<open>100 * ln (m / 16384)\<close> rounded to the nearest integer.
\<close>

definition dbfs_spec :: "int \<Rightarrow> int \<Rightarrow> int" where
  "dbfs_spec i q =
     (let m = (i - 158)\<^sup>2 + (q - 128)\<^sup>2
      in if m = 0 then DBFS_MIN else round (100 * ln (real_of_int m / 16384)))"

subsection \<open>The globals and the external collaborators\<close>

text \<open>
  The globals of the file that the gain control reads or writes. \<open>dev\<close> stands for the
  opened device with everything the library keeps about it; its type is left open.
  \<open>max_event\<close> is the counter of the eventfd behind the descriptor of that name:
  \<open>write\<close> adds to it, \<open>read\<close> returns it and sets it to zero. \<open>gains\<close> is the array
  \<open>int gains[100]\<close>.
\<close>

record 'dev agc =
  dbfs_lut :: "int list list"
  do_exit :: int
  dev :: 'dev
  target_dbfs :: int
  current_gain :: int
  samp_rate :: nat
  max_samples :: int
  sample_index :: int
  max_dbfs :: int
  max_event :: nat
  delta_gain :: int
  pid_somme :: int
  gain_count :: int
  gains :: "int list"
  gain_index :: int

text \<open>
  Functions of the C library and of librtlsdr and convenience.c, which are not in the
  file: they are parameters. \<open>verbose_gain_set\<close> returns its status and the device
  after the attempt; \<open>rtlsdr_get_tuner_gains\<close> returns its result (the number of gains)
  and the values it copies to the start of the array it is given.
\<close>

record 'dev ext =
  logf :: "real \<Rightarrow> real"
  rnd :: "real \<Rightarrow> real"
  verbose_gain_set :: "'dev \<Rightarrow> int \<Rightarrow> int \<times> 'dev"
  rtlsdr_get_tuner_gains :: "'dev \<Rightarrow> int \<times> int list"
  verbose_auto_gain :: "'dev \<Rightarrow> 'dev"
  nearest_gain :: "'dev \<Rightarrow> int \<Rightarrow> int"

text \<open>
  The initialisers of the globals (lines 47, 66--68, 110--123). Before \<open>max_thread_init\<close>
  there is no eventfd (the descriptor is \<open>- 1\<close>); its counter starts at 0.
\<close>

definition globals0 :: "'dev \<Rightarrow> nat \<Rightarrow> 'dev agc" where
  "globals0 d rate =
     \<lparr> dbfs_lut = replicate 256 (replicate 256 0), do_exit = 0, dev = d,
       target_dbfs = 0, current_gain = 0, samp_rate = rate, max_samples = 0,
       sample_index = 0, max_dbfs = DBFS_MIN, max_event = 0, delta_gain = 0,
       pid_somme = 0, gain_count = 0, gains = replicate 100 0, gain_index = 1 \<rparr>"

datatype fault = OutOfBounds

text \<open>
  A read \<open>gains[k]\<close>. Outside the array C leaves the behaviour undefined: the model
  stops with a fault.
\<close>

definition gains_read :: "int list \<Rightarrow> int \<Rightarrow> fault + int" where
  "gains_read g k = (if 0 \<le> k \<and> nat k < length g then Inr (g ! nat k) else Inl OutOfBounds)"

text \<open>Division of C \<open>int\<close>s by a positive divisor: the quotient is truncated towards zero.\<close>

definition c_div :: "int \<Rightarrow> int \<Rightarrow> int" where
  "c_div a b = (if 0 \<le> a then a div b else - ((- a) div b))"

subsection \<open>The error accumulator and the event (lines 137--155)\<close>

text \<open>
  The value that a C \<open>int\<close> of 32 bits holds after an arithmetic result \<open>v\<close> is stored
  in it: \<open>v\<close> itself between \<open>- 2^31\<close> and \<open>2^31 - 1\<close>, wrapped around into that range
  otherwise.
\<close>

definition c_int :: "int \<Rightarrow> int" where
  "c_int v = (v + 2147483648) mod 4294967296 - 2147483648"

text \<open>
  \<open>pid_somme += delta\<close>: the accumulator has no bound in the code, and the sum is the
  one place where an \<open>int\<close> of the gain control can leave its range.
\<close>

definition update_gain_pid :: "int \<Rightarrow> 'dev agc \<Rightarrow> 'dev agc" where
  "update_gain_pid delta st = st\<lparr>pid_somme := c_int (pid_somme st + delta)\<rparr>"

definition signal_event :: "'dev agc \<Rightarrow> 'dev agc" where
  "signal_event st = st\<lparr>max_event := max_event st + 1\<rparr>"

definition clear_event :: "'dev agc \<Rightarrow> 'dev agc" where
  "clear_event st = st\<lparr>max_event := 0\<rparr>"

subsection \<open>The sample callback (lines 214--240)\<close>

text \<open>
  Lines 221--231: the window counter. A pair that finds the counter positive counts it
  down; a pair that finds it at zero closes the window: the distance of the peak to the
  target goes to the accumulator, the event is posted, the counter restarts at
  \<open>max_samples - 1\<close> and the peak at \<open>DBFS_MIN\<close>.
\<close>

definition window_count :: "'dev agc \<Rightarrow> 'dev agc" where
  "window_count st =
     (if sample_index st > 0 then st\<lparr>sample_index := sample_index st - 1\<rparr>
      else
        (let st = st\<lparr>delta_gain := target_dbfs st - max_dbfs st\<rparr>;
             st = update_gain_pid (delta_gain st) st;
             st = signal_event st
         in st\<lparr>sample_index := max_samples st - 1, max_dbfs := DBFS_MIN\<rparr>))"

text \<open>
  Lines 218 and 232--237. The pointer \<open>p\<close> is declared in the body of the loop and set
  to \<open>buf\<close> there, so every iteration reads \<open>buf[0]\<close> and \<open>buf[1]\<close>.
\<close>

definition peak_fold :: "u8 list \<Rightarrow> 'dev agc \<Rightarrow> 'dev agc" where
  "peak_fold buf st =
     (let i = buf ! 0;
          q = buf ! 1;
          level = lut_at (dbfs_lut st) i q
      in if level > max_dbfs st then st\<lparr>max_dbfs := level\<rparr> else st)"

text \<open>The loop \<open>while (n--)\<close>, with \<open>n\<close> iterations left.\<close>

fun callback_loop :: "nat \<Rightarrow> u8 list \<Rightarrow> 'dev agc \<Rightarrow> 'dev agc" where
  "callback_loop 0 buf st = st"
| "callback_loop (Suc n) buf st = callback_loop n buf (peak_fold buf (window_count st))"

text \<open>
  The block guarded by \<open>target_dbfs < 0\<close>, for a buffer of \<open>len = length buf\<close> bytes;
  \<open>n = len / 2\<close>, so a loop that runs has two bytes to read.
\<close>

definition rtlsdr_callback_agc :: "u8 list \<Rightarrow> 'dev agc \<Rightarrow> 'dev agc" where
  "rtlsdr_callback_agc buf st =
     (if target_dbfs st < 0 then callback_loop (length buf div 2) buf st else st)"

text \<open>
  What the specification asks of a block in which no window closes: the peak becomes the
  maximum of the old peak and the scores of all consecutive pairs of the buffer.
\<close>

fun iq_pairs :: "u8 list \<Rightarrow> (u8 \<times> u8) list" where
  "iq_pairs (i # q # rest) = (i, q) # iq_pairs rest"
| "iq_pairs _ = []"

definition peak_spec :: "int list list \<Rightarrow> int \<Rightarrow> u8 list \<Rightarrow> int" where
  "peak_spec lut peak buf = fold (\<lambda>(i, q) m. max m (lut_at lut i q)) (iq_pairs buf) peak"

text \<open>A buffer of \<open>n\<close> pairs, all equal to \<open>(i, q)\<close>.\<close>

definition iq_block :: "nat \<Rightarrow> u8 \<Rightarrow> u8 \<Rightarrow> u8 list" where
  "iq_block n i q = concat (replicate n [i, q])"

subsection \<open>The gain thread (lines 157--194)\<close>

text \<open>
  Lines 171--178 work on the accumulator and the local \<open>new_gain_index\<close>: two
  conditionals, one after the other.
\<close>

definition pid_increase :: "int \<times> int \<Rightarrow> int \<times> int" where
  "pid_increase = (\<lambda>(somme, new_gain_index).
     if somme > 300 then (somme - 300, new_gain_index + 1) else (somme, new_gain_index))"

definition pid_decrease :: "int \<times> int \<Rightarrow> int \<times> int" where
  "pid_decrease = (\<lambda>(somme, new_gain_index).
     if somme < - 300 then (somme + 300, new_gain_index - 1) else (somme, new_gain_index))"

text \<open>Lines 180--184.\<close>

definition clamp_index :: "int \<Rightarrow> int \<Rightarrow> int" where
  "clamp_index count new_gain_index =
     (if new_gain_index < 1 then 1
      else if new_gain_index > count - 1 then count - 1
      else new_gain_index)"

text \<open>The value of \<open>new_gain_index\<close> at line 185.\<close>

definition new_gain_index_of :: "'dev agc \<Rightarrow> int" where
  "new_gain_index_of st =
     clamp_index (gain_count st) (snd (pid_decrease (pid_increase (pid_somme st, gain_index st))))"

text \<open>The body of \<open>if (selected > 0)\<close>, lines 169--190.\<close>

definition gain_wake :: "'dev ext \<Rightarrow> 'dev agc \<Rightarrow> fault + 'dev agc" where
  "gain_wake x st =
     (let new_gain_index = gain_index st;
          st = clear_event st;
          (somme, new_gain_index) = pid_decrease (pid_increase (pid_somme st, new_gain_index));
          st = st\<lparr>pid_somme := somme\<rparr>;
          new_gain_index = clamp_index (gain_count st) new_gain_index
      in if new_gain_index \<noteq> gain_index st then
           (case gains_read (gains st) new_gain_index of
              Inl e \<Rightarrow> Inl e
            | Inr g \<Rightarrow>
                (let st = st\<lparr>current_gain := g\<rparr>;
                     st = st\<lparr>dev := snd (verbose_gain_set x (dev st) (current_gain st))\<rparr>
                 in Inr (st\<lparr>gain_index := new_gain_index\<rparr>)))
         else Inr st)"

text \<open>One iteration of the \<open>do\<close> loop, for the result \<open>selected\<close> of \<open>select\<close>.\<close>

definition thread_iteration :: "'dev ext \<Rightarrow> int \<Rightarrow> 'dev agc \<Rightarrow> fault + 'dev agc" where
  "thread_iteration x selected st = (if selected > 0 then gain_wake x st else Inr st)"

text \<open>
  The clamp of the specification, \<open>clamp(v, lo, hi)\<close>: \<open>lo\<close> below the interval,
  \<open>hi\<close> above it, \<open>v\<close> inside.
\<close>

definition clamp_spec :: "int \<Rightarrow> int \<Rightarrow> int \<Rightarrow> int" where
  "clamp_spec v lo hi = max lo (min hi v)"

text \<open>
  The accumulator of the specification: \<open>on_peak\<close> adds the distance to the target and
  answers with the new accumulator and a step (\<open>1\<close> to increase, \<open>- 1\<close> to decrease,
  \<open>0\<close> for none).
\<close>

definition on_peak_spec :: "int \<Rightarrow> int \<Rightarrow> int \<Rightarrow> int \<times> int" where
  "on_peak_spec acc target peak =
     (let acc = acc + (target - peak)
      in if acc > 300 then (acc - 300, 1)
         else if acc < - 300 then (acc + 300, - 1)
         else (acc, 0))"


subsection \<open>The two threads together\<close>

text \<open>
  Lines 224--226, the three statements with which the callback hands a closed window to
  the thread, for a window whose peak is at distance \<open>delta\<close> from the target.
\<close>

definition post_observation :: "int \<Rightarrow> 'dev agc \<Rightarrow> 'dev agc" where
  "post_observation delta st =
     (let st = st\<lparr>delta_gain := delta\<rparr>;
          st = update_gain_pid (delta_gain st) st
      in signal_event st)"

text \<open>
  The callback and the thread run side by side. A run of the two is a list of events in
  the order in which they take effect: the callback closes a window, or the thread wakes
  (\<open>select\<close> has returned a positive value). Any number of windows can close between two
  wakes, and a wake can come with nothing new in the accumulator.
\<close>

datatype event = Observe int | Wake

fun run_events :: "'dev ext \<Rightarrow> event list \<Rightarrow> 'dev agc \<Rightarrow> fault + 'dev agc" where
  "run_events x [] st = Inr st"
| "run_events x (Observe delta # evs) st = run_events x evs (post_observation delta st)"
| "run_events x (Wake # evs) st =
     (case gain_wake x st of Inl e \<Rightarrow> Inl e | Inr st \<Rightarrow> run_events x evs st)"

text \<open>The deltas of the windows closed in a run, in their order.\<close>

fun deltas_of :: "event list \<Rightarrow> int list" where
  "deltas_of [] = []"
| "deltas_of (Observe delta # evs) = delta # deltas_of evs"
| "deltas_of (Wake # evs) = deltas_of evs"

subsection \<open>Start of the gain control (lines 125--135 and 360--380)\<close>

text \<open>
  \<open>initialize_gains\<close>. The first call of \<open>rtlsdr_get_tuner_gains\<close>, with \<open>NULL\<close>, only
  feeds a message, and the second call overwrites its result. The second call copies the
  gains to the start of \<open>gains\<close>; more than the array holds would be written past its
  end, a fault of the model.
\<close>

definition initialize_gains :: "'dev ext \<Rightarrow> 'dev agc \<Rightarrow> fault + 'dev agc" where
  "initialize_gains x st =
     (let (count, vals) = rtlsdr_get_tuner_gains x (dev st)
      in if length vals > length (gains st) then Inl OutOfBounds
         else Inr (st\<lparr>gain_count := count,
                       gains := vals @ drop (length vals) (gains st),
                       gain_index := c_div count 2\<rparr>))"

definition MAX_HZ :: nat where
  "MAX_HZ = 5"

text \<open>
  \<open>max_thread_init\<close> creates the eventfd with counter 0 and starts the thread; the model
  keeps the counter.
\<close>

definition max_thread_init :: "'dev agc \<Rightarrow> 'dev agc" where
  "max_thread_init st = st\<lparr>max_event := 0\<rparr>"

text \<open>The three gain modes of \<open>main\<close>, chosen by the sign of the argument of \<open>-g\<close>.\<close>

definition main_gain :: "'dev ext \<Rightarrow> int \<Rightarrow> 'dev agc \<Rightarrow> fault + 'dev agc" where
  "main_gain x gain st =
     (if 0 = gain then Inr (st\<lparr>dev := verbose_auto_gain x (dev st)\<rparr>)
      else if gain > 0 then
        (let gain = nearest_gain x (dev st) gain
         in Inr (st\<lparr>dev := snd (verbose_gain_set x (dev st) gain)\<rparr>))
      else
        (case initialize_gains x st of
           Inl e \<Rightarrow> Inl e
         | Inr st \<Rightarrow>
             (case gains_read (gains st) (gain_index st) of
                Inl e \<Rightarrow> Inl e
              | Inr g \<Rightarrow>
                  (let st = st\<lparr>current_gain := g\<rparr>;
                       st = st\<lparr>dev := snd (verbose_gain_set x (dev st) (current_gain st))\<rparr>;
                       st = st\<lparr>target_dbfs := gain\<rparr>;
                       st = st\<lparr>max_samples := int (samp_rate st div MAX_HZ)\<rparr>;
                       st = st\<lparr>sample_index := max_samples st\<rparr>;
                       st = st\<lparr>dbfs_lut := dbfs_lut_init (logf x) (rnd x)\<rparr>
                   in Inr (max_thread_init st)))))"

text \<open>
  Collaborators for concrete runs: exact arithmetic for the logarithm, a device that is
  the list of the gains written to it, with a gain-set call that reports the status
  \<open>r\<close>, and the 29 gains of an R820T tuner.
\<close>

definition r820t_gains :: "int list" where
  "r820t_gains = [0, 9, 14, 27, 37, 77, 87, 125, 144, 157, 166, 197, 207, 229, 254, 280,
     297, 328, 338, 364, 372, 386, 402, 421, 434, 439, 445, 480, 496]"

definition test_ext :: "int \<Rightarrow> int list \<Rightarrow> (int list) ext" where
  "test_ext r table =
     \<lparr> logf = ln, rnd = id,
       verbose_gain_set = (\<lambda>d g. (r, d @ [g])),
       rtlsdr_get_tuner_gains = (\<lambda>d. (int (length table), table)),
       verbose_auto_gain = id,
       nearest_gain = (\<lambda>d g. g) \<rparr>"

text \<open>
  The state in which \<open>main\<close> leaves the globals for \<open>-g -10\<close> at the default sample
  rate on that tuner (lemma \<open>main_gain_running\<close> below): a target of \<open>- 100\<close>, windows
  of 409600 pairs, the middle gain of the table written to the device.
\<close>

definition agc_running :: "(int list) agc" where
  "agc_running =
     \<lparr> dbfs_lut = dbfs_lut_init ln id, do_exit = 0, dev = [254],
       target_dbfs = - 100, current_gain = 254, samp_rate = 2048000, max_samples = 409600,
       sample_index = 409600, max_dbfs = DBFS_MIN, max_event = 0, delta_gain = 0,
       pid_somme = 0, gain_count = 29, gains = r820t_gains @ replicate 71 0,
       gain_index = 14 \<rparr>"

text \<open>
  The same start on a tuner for which the library reports the single gain 0 (lemma
  \<open>main_gain_one_gain\<close> below).
\<close>

definition agc_one_gain :: "(int list) agc" where
  "agc_one_gain =
     \<lparr> dbfs_lut = dbfs_lut_init ln id, do_exit = 0, dev = [0],
       target_dbfs = - 100, current_gain = 0, samp_rate = 2048000, max_samples = 409600,
       sample_index = 409600, max_dbfs = DBFS_MIN, max_event = 0, delta_gain = 0,
       pid_somme = 0, gain_count = 1, gains = [0] @ replicate 99 0, gain_index = 0 \<rparr>"

text \<open>The callback on a buffer of \<open>n\<close> pairs that are all \<open>(i, q)\<close>.\<close>

definition feed_pairs :: "nat \<Rightarrow> u8 \<Rightarrow> u8 \<Rightarrow> 'dev agc \<Rightarrow> 'dev agc" where
  "feed_pairs n i q st = rtlsdr_callback_agc (iq_block n i q) st"

subsection \<open>Facts about the table\<close>

lemma unat_u8_less: "unat (b :: u8) < 256"
  using unsigned_less [of b, where ?'a = nat] by simp

lemma lut_at_init:
  "lut_at (dbfs_lut_init lg r) i q = dbfs_cell lg r (uint i) (uint q)"
  by (simp add: lut_at_def dbfs_lut_init_def unat_u8_less del: upt_Suc)

lemma mag_zero_iff:
  "(i - 158) * (i - 158) + (q - 128) * (q - 128) = (0::int) \<longleftrightarrow> i = 158 \<and> q = 128"
  by auto

lemma mag_nonneg: "0 \<le> (i - 158) * (i - 158) + (q - 128) * (q - 128)" for i q :: int
  by simp

lemma dbfs_cell_center: "dbfs_cell lg r 158 128 = DBFS_MIN"
  by (simp add: dbfs_cell_def)

lemma uint_u8_eq_158: "uint (i :: u8) = 158 \<longleftrightarrow> i = 158"
  using word_uint_eq_iff [of i 158] by simp

lemma uint_u8_eq_128: "uint (q :: u8) = 128 \<longleftrightarrow> q = 128"
  using word_uint_eq_iff [of q 128] by simp

lemma dbfs_lut_init_rows:
  "length (dbfs_lut_init lg r) = 256" "\<forall>row \<in> set (dbfs_lut_init lg r). length row = 256"
  by (simp_all add: dbfs_lut_init_def del: upt_Suc)

subsection \<open>Bounds on the logarithm of 2\<close>

text \<open>
  Two table entries are computed below. The partial sums of the exponential series and
  the remainder of Maclaurin's formula give \<open>0.6931 < ln 2 < 0.6932\<close>.
\<close>

lemma exp_upper_8:
  fixes x :: real
  assumes "0 \<le> x" "x \<le> 1"
  shows "exp x \<le> (\<Sum>m<8. x ^ m / fact m) + 3 * x ^ 8 / 40320"
proof -
  obtain t where t: "\<bar>t\<bar> \<le> \<bar>x\<bar>"
    and e: "exp x = (\<Sum>m<8. x ^ m / fact m) + (exp t / fact 8) * x ^ 8"
    using Maclaurin_exp_le [of x 8] by blast
  have "t \<le> 1" using t assms by linarith
  then have "exp t \<le> exp 1" by simp
  also have "\<dots> \<le> 3" by (rule exp_le)
  finally have "exp t \<le> 3" .
  moreover have "0 \<le> x ^ 8" using assms by simp
  ultimately have "exp t * x ^ 8 \<le> 3 * x ^ 8" by (rule mult_right_mono)
  then have "(exp t / fact 8) * x ^ 8 \<le> 3 * x ^ 8 / 40320"
    by (simp add: fact_numeral)
  with e show ?thesis by linarith
qed

lemma exp_lower_8:
  fixes x :: real
  assumes "0 \<le> x"
  shows "(\<Sum>m<8. x ^ m / fact m) \<le> exp x"
proof -
  obtain t where e: "exp x = (\<Sum>m<8. x ^ m / fact m) + (exp t / fact 8) * x ^ 8"
    using Maclaurin_exp_le [of x 8] by blast
  have "0 \<le> (exp t / fact 8) * x ^ 8" using assms by simp
  with e show ?thesis by linarith
qed

lemma exp_sum_8:
  "(\<Sum>m<8. x ^ m / fact m) =
     1 + x + x^2 / 2 + x^3 / 6 + x^4 / 24 + x^5 / 120 + x^6 / 720 + x^7 / 5040"
  for x :: real
  by (simp add: lessThan_nat_numeral lessThan_Suc fact_numeral)

lemma ln2_lower: "6931 / 10000 < ln (2::real)"
proof -
  have "exp (6931/10000 :: real)
      \<le> (\<Sum>m<8. (6931/10000) ^ m / fact m) + 3 * (6931/10000) ^ 8 / 40320"
    by (rule exp_upper_8) simp_all
  also have "\<dots> < (2::real)" unfolding exp_sum_8 by (simp add: power_divide)
  finally have "exp (6931/10000) < exp (ln (2::real))" by simp
  then show ?thesis by (simp only: exp_less_cancel_iff)
qed

lemma ln2_upper: "ln (2::real) < 6932 / 10000"
proof -
  have "(2::real) < (\<Sum>m<8. (6932/10000) ^ m / fact m)"
    unfolding exp_sum_8 by (simp add: power_divide)
  also have "\<dots> \<le> exp (6932/10000 :: real)" by (rule exp_lower_8) simp
  finally have "exp (ln (2::real)) < exp (6932/10000)" by simp
  then show ?thesis by (simp only: exp_less_cancel_iff)
qed

lemma ln_quarter: "ln (1/4 :: real) = - 2 * ln 2"
proof -
  have "ln (1/4 :: real) = - ln 4" by (simp add: ln_div)
  also have "ln (4::real) = 2 * ln 2" using ln_realpow [of "2::real" 2] by simp
  finally show ?thesis by simp
qed

lemma log_quarter_bounds:
  "- 13864 / 100 < 100 * ln (1/4 :: real)" "100 * ln (1/4 :: real) < - 13862 / 100"
  using ln2_lower ln2_upper by (simp_all add: ln_quarter)

lemma c_float_to_int_138:
  assumes "- 139 < y" "y \<le> - 138"
  shows "c_float_to_int y = - 138"
proof -
  have "\<lceil>y\<rceil> = - 138" using assms by (simp add: ceiling_eq_iff)
  with assms show ?thesis by (simp add: c_float_to_int_def)
qed

lemma dbfs_cell_158_64:
  assumes "\<bar>r (100 * lg (1/4)) - 100 * ln (1/4)\<bar> \<le> 1 / 4"
  shows "dbfs_cell lg r 158 64 = - 138"
proof -
  have "- 139 < r (100 * lg (1/4))" "r (100 * lg (1/4)) \<le> - 138"
    using assms log_quarter_bounds by linarith+
  then have "c_float_to_int (r (100 * lg (1/4))) = - 138" by (rule c_float_to_int_138)
  then show ?thesis by (simp add: dbfs_cell_def dbfs_of_mag_def)
qed

lemma dbfs_spec_158_64: "dbfs_spec 158 64 = - 139"
proof -
  have "round (100 * ln (1/4 :: real)) = - 139"
    using log_quarter_bounds by (simp add: round_def floor_eq_iff)
  then show ?thesis by (simp add: dbfs_spec_def)
qed

lemma trunc_round_close: "\<bar>c_float_to_int x - round x\<bar> \<le> 1"
  unfolding c_float_to_int_def round_def by (simp; linarith)

lemma dbfs_cell_30_128: "dbfs_cell ln id 30 128 = 0"
  by (simp add: dbfs_cell_def dbfs_of_mag_def c_float_to_int_def)

text \<open>An entry below the sentinel: magnitude 1 scores \<open>- 970\<close>.\<close>

lemma ln_16384th: "ln (1/16384 :: real) = - 14 * ln 2"
proof -
  have "ln (1/16384 :: real) = - ln 16384" by (simp add: ln_div)
  also have "ln (16384::real) = 14 * ln 2" using ln_realpow [of "2::real" 14] by simp
  finally show ?thesis by simp
qed

lemma dbfs_cell_159_128: "dbfs_cell ln id 159 128 = - 970"
proof -
  have b: "- 971 < 100 * ln (1/16384 :: real)" "100 * ln (1/16384 :: real) \<le> - 970"
    using ln2_lower ln2_upper by (simp_all add: ln_16384th)
  then have "\<lceil>100 * ln (1/16384 :: real)\<rceil> = - 970" by (simp add: ceiling_eq_iff)
  with b show ?thesis by (simp add: dbfs_cell_def dbfs_of_mag_def c_float_to_int_def)
qed


subsection \<open>The entries of the table\<close>

text \<open>
  C3, as the code has it. For every byte pair \<open>(i, q)\<close> with centred magnitude
  \<open>m = (i - 158)^2 + (q - 128)^2\<close>: \<open>m\<close> is zero exactly at \<open>i = 158\<close>, \<open>q = 128\<close>, and
  there the entry is the sentinel \<open>DBFS_MIN\<close>; everywhere else the entry is
  \<open>100 * logf (m / 16384)\<close> with its fractional part discarded (the conversion of C from
  float to int), not rounded to the nearest integer. In exact arithmetic the entry is
  within 1 of the rounded value that the specification names. The build is a function of
  \<open>logf\<close> alone, so two builds give the same 256 by 256 table.
\<close>

theorem C3_table_entries:
  fixes i q :: u8
  assumes "m = (uint i - 158) * (uint i - 158) + (uint q - 128) * (uint q - 128)"
  shows "(m = 0 \<longleftrightarrow> i = 158 \<and> q = 128)
       \<and> (m = 0 \<longrightarrow> lut_at (dbfs_lut_init lg r) i q = DBFS_MIN)
       \<and> (m \<noteq> 0 \<longrightarrow> lut_at (dbfs_lut_init lg r) i q
              = c_float_to_int (r (100 * lg (real_of_int m / 16384))))
       \<and> \<bar>lut_at (dbfs_lut_init ln id) i q - dbfs_spec (uint i) (uint q)\<bar> \<le> 1
       \<and> length (dbfs_lut_init lg r) = 256
       \<and> (\<forall>row \<in> set (dbfs_lut_init lg r). length row = 256)"
proof -
  have center: "m = 0 \<longleftrightarrow> i = 158 \<and> q = 128"
    unfolding assms mag_zero_iff by (simp add: uint_u8_eq_158 uint_u8_eq_128)
  have pos: "m \<noteq> 0 \<Longrightarrow> 0 < m"
    using mag_nonneg [of "uint i" "uint q"] unfolding assms by linarith
  have zero: "m = 0 \<Longrightarrow> lut_at (dbfs_lut_init lg r) i q = DBFS_MIN" for lg r
    using assms by (simp add: lut_at_init dbfs_cell_def)
  have other: "m \<noteq> 0 \<Longrightarrow> lut_at (dbfs_lut_init lg r) i q
      = c_float_to_int (r (100 * lg (real_of_int m / 16384)))" for lg r
    using pos assms by (simp add: lut_at_init dbfs_cell_def dbfs_of_mag_def)
  have spec: "dbfs_spec (uint i) (uint q)
      = (if m = 0 then DBFS_MIN else round (100 * ln (real_of_int m / 16384)))"
    unfolding assms by (simp add: dbfs_spec_def power2_eq_square)
  have close: "\<bar>lut_at (dbfs_lut_init ln id) i q - dbfs_spec (uint i) (uint q)\<bar> \<le> 1"
  proof (cases "m = 0")
    case True
    then show ?thesis using zero [of ln id] spec by simp
  next
    case False
    then show ?thesis
      using other [of ln id] spec trunc_round_close [of "100 * ln (real_of_int m / 16384)"]
      by simp
  qed
  from center zero other close dbfs_lut_init_rows [of lg r] show ?thesis by blast
qed

theorem C3_table_entries_witness:
  "lut_at (dbfs_lut_init ln id) 158 128 = DBFS_MIN \<and> lut_at (dbfs_lut_init ln id) 30 128 = 0"
  using C3_table_entries [of 0 158 128 ln id] C3_table_entries [of 16384 30 128 ln id]
  by (simp add: c_float_to_int_def)

text \<open>
  The entry at \<open>i = 158\<close>, \<open>q = 64\<close>, where \<open>m = 4096\<close> and \<open>100 * ln (m / 16384)\<close> is
  about \<open>- 138.63\<close>: the table holds \<open>- 138\<close>, rounding gives \<open>- 139\<close>.
\<close>

theorem C3_counterexample:
  "lut_at (dbfs_lut_init ln id) 158 64 = - 138 \<and> dbfs_spec 158 64 = - 139"
  using dbfs_cell_158_64 [of id ln] by (simp add: lut_at_init dbfs_spec_158_64)

subsection \<open>The callback loop\<close>

lemma length_iq_block: "length (iq_block n i q) = 2 * n"
  by (induction n) (simp_all add: iq_block_def)

lemma pairs_of_iq_block: "length (iq_block n i q) div 2 = n"
  by (simp add: length_iq_block)

lemma iq_block_first: "0 < n \<Longrightarrow> iq_block n i q ! 0 = i \<and> iq_block n i q ! 1 = q"
  by (cases n) (simp_all add: iq_block_def)

lemma window_count_open:
  "0 < sample_index st \<Longrightarrow> window_count st = st\<lparr>sample_index := sample_index st - 1\<rparr>"
  by (simp add: window_count_def)

lemma window_count_close:
  "sample_index st \<le> 0 \<Longrightarrow> window_count st =
     st\<lparr>delta_gain := target_dbfs st - max_dbfs st,
        pid_somme := c_int (pid_somme st + (target_dbfs st - max_dbfs st)),
        max_event := Suc (max_event st),
        sample_index := max_samples st - 1,
        max_dbfs := DBFS_MIN\<rparr>"
  by (simp add: window_count_def update_gain_pid_def signal_event_def)

lemma peak_fold_max:
  "peak_fold buf st = st\<lparr>max_dbfs := max (max_dbfs st) (lut_at (dbfs_lut st) (buf ! 0) (buf ! 1))\<rparr>"
  by (simp add: peak_fold_def Let_def max_def)

lemma callback_loop_add:
  "callback_loop (a + b) buf st = callback_loop b buf (callback_loop a buf st)"
  by (induction a arbitrary: st) simp_all

lemma callback_loop_cong:
  "buf ! 0 = buf' ! 0 \<Longrightarrow> buf ! 1 = buf' ! 1 \<Longrightarrow> callback_loop n buf st = callback_loop n buf' st"
  by (induction n arbitrary: st) (simp_all add: peak_fold_max)

lemma callback_loop_open:
  "int n \<le> sample_index st \<Longrightarrow> 0 < n \<Longrightarrow>
   callback_loop n buf st =
     st\<lparr>sample_index := sample_index st - int n,
        max_dbfs := max (max_dbfs st) (lut_at (dbfs_lut st) (buf ! 0) (buf ! 1))\<rparr>"
proof (induction n arbitrary: st)
  case 0
  then show ?case by simp
next
  case (Suc n)
  let ?st1 = "peak_fold buf (window_count st)"
  from Suc.prems have pos: "0 < sample_index st" by simp
  show ?case
  proof (cases "n = 0")
    case True
    with pos show ?thesis by (simp add: window_count_open peak_fold_max)
  next
    case False
    have "int n \<le> sample_index ?st1"
      using Suc.prems pos by (simp add: window_count_open peak_fold_max)
    with False have "callback_loop n buf ?st1 =
        ?st1\<lparr>sample_index := sample_index ?st1 - int n,
          max_dbfs := max (max_dbfs ?st1) (lut_at (dbfs_lut ?st1) (buf ! 0) (buf ! 1))\<rparr>"
      by (intro Suc.IH) simp_all
    then show ?thesis using pos by (simp add: window_count_open peak_fold_max)
  qed
qed

lemma callback_step_close:
  "sample_index st \<le> 0 \<Longrightarrow>
   callback_loop 1 buf st =
     st\<lparr>delta_gain := target_dbfs st - max_dbfs st,
        pid_somme := c_int (pid_somme st + (target_dbfs st - max_dbfs st)),
        max_event := Suc (max_event st),
        sample_index := max_samples st - 1,
        max_dbfs := max DBFS_MIN (lut_at (dbfs_lut st) (buf ! 0) (buf ! 1))\<rparr>"
  by (simp add: window_count_close peak_fold_max)

lemma callback_loop_floor:
  "DBFS_MIN \<le> max_dbfs st \<Longrightarrow> DBFS_MIN \<le> max_dbfs (callback_loop n buf st)"
proof (induction n arbitrary: st)
  case 0
  then show ?case by simp
next
  case (Suc n)
  have "DBFS_MIN \<le> max_dbfs (peak_fold buf (window_count st))"
    using Suc.prems by (cases "0 < sample_index st")
      (simp_all add: window_count_open window_count_close peak_fold_max)
  then show ?case by (simp add: Suc.IH)
qed

lemma callback_loop_target: "target_dbfs (callback_loop n buf st) = target_dbfs st"
proof (induction n arbitrary: st)
  case 0
  then show ?case by simp
next
  case (Suc n)
  have "target_dbfs (peak_fold buf (window_count st)) = target_dbfs st"
    by (cases "0 < sample_index st")
      (simp_all add: window_count_open window_count_close peak_fold_max)
  then show ?case by (simp add: Suc.IH)
qed

lemma feed_pairs_loop:
  "target_dbfs st < 0 \<Longrightarrow> feed_pairs n i q st = callback_loop n [i, q] st"
proof (cases n)
  case 0
  then show ?thesis by (simp add: feed_pairs_def rtlsdr_callback_agc_def iq_block_def)
next
  case (Suc k)
  assume "target_dbfs st < 0"
  then have "feed_pairs n i q st = callback_loop n (iq_block n i q) st"
    by (simp add: feed_pairs_def rtlsdr_callback_agc_def pairs_of_iq_block)
  also have "\<dots> = callback_loop n [i, q] st"
    using Suc iq_block_first [of n i q] by (intro callback_loop_cong) simp_all
  finally show ?thesis .
qed

lemma feed_pairs_add:
  assumes "target_dbfs st < 0"
  shows "feed_pairs b i q (feed_pairs a i q st) = feed_pairs (a + b) i q st"
proof -
  have "target_dbfs (feed_pairs a i q st) < 0"
    using assms by (simp add: feed_pairs_loop callback_loop_target)
  then show ?thesis using assms by (simp add: feed_pairs_loop callback_loop_add)
qed

lemma feed_pairs_open:
  assumes "target_dbfs st < 0" "int n \<le> sample_index st"
  shows "max_event (feed_pairs n i q st) = max_event st"
    "pid_somme (feed_pairs n i q st) = pid_somme st"
    "sample_index (feed_pairs n i q st) = sample_index st - int n"
    "0 < n \<Longrightarrow> max_dbfs (feed_pairs n i q st) = max (max_dbfs st) (lut_at (dbfs_lut st) i q)"
    "dbfs_lut (feed_pairs n i q st) = dbfs_lut st"
    "target_dbfs (feed_pairs n i q st) = target_dbfs st"
    "max_samples (feed_pairs n i q st) = max_samples st"
  using assms by (cases "n = 0"; simp add: feed_pairs_loop callback_loop_open)+

lemma feed_pairs_close:
  assumes "target_dbfs st < 0" "sample_index st = 0"
  shows "max_event (feed_pairs 1 i q st) = max_event st + 1"
    "delta_gain (feed_pairs 1 i q st) = target_dbfs st - max_dbfs st"
    "pid_somme (feed_pairs 1 i q st) = c_int (pid_somme st + (target_dbfs st - max_dbfs st))"
    "sample_index (feed_pairs 1 i q st) = max_samples st - 1"
    "max_dbfs (feed_pairs 1 i q st) = max DBFS_MIN (lut_at (dbfs_lut st) i q)"
  using assms by (simp_all add: feed_pairs_loop callback_step_close del: callback_loop.simps One_nat_def)

lemma feed_pairs_window:
  assumes "target_dbfs st < 0" "0 \<le> sample_index st"
  shows "max_event (feed_pairs (nat (sample_index st) + 1) i q st) = max_event st + 1"
    "delta_gain (feed_pairs (nat (sample_index st) + 1) i q st)
       = target_dbfs st - (if sample_index st = 0 then max_dbfs st
                           else max (max_dbfs st) (lut_at (dbfs_lut st) i q))"
    "pid_somme (feed_pairs (nat (sample_index st) + 1) i q st)
       = c_int (pid_somme st + (target_dbfs st - (if sample_index st = 0 then max_dbfs st
                           else max (max_dbfs st) (lut_at (dbfs_lut st) i q))))"
    "sample_index (feed_pairs (nat (sample_index st) + 1) i q st) = max_samples st - 1"
proof -
  let ?k = "nat (sample_index st)"
  let ?st1 = "feed_pairs ?k i q st"
  have split: "feed_pairs (?k + 1) i q st = feed_pairs 1 i q ?st1"
    using assms(1) by (simp add: feed_pairs_add)
  have le: "int ?k \<le> sample_index st" using assms(2) by simp
  note open1 = feed_pairs_open [OF assms(1) le, of i q]
  have t1: "target_dbfs ?st1 < 0" using open1 assms(1) by simp
  have s1: "sample_index ?st1 = 0" using open1 assms(2) by simp
  note close1 = feed_pairs_close [OF t1 s1, of i q]
  have m1: "max_dbfs ?st1 = (if sample_index st = 0 then max_dbfs st
                           else max (max_dbfs st) (lut_at (dbfs_lut st) i q))"
  proof (cases "sample_index st = 0")
    case True
    then have "?st1 = st" using assms(1) by (simp add: feed_pairs_loop)
    with True show ?thesis by simp
  next
    case False
    with assms(2) have "0 < ?k" by simp
    with open1(4) False show ?thesis by simp
  qed
  show "max_event (feed_pairs (?k + 1) i q st) = max_event st + 1"
    unfolding split using close1(1) open1(1) by simp
  show "delta_gain (feed_pairs (?k + 1) i q st)
       = target_dbfs st - (if sample_index st = 0 then max_dbfs st
                           else max (max_dbfs st) (lut_at (dbfs_lut st) i q))"
    unfolding split using close1(2) open1(6) m1 by simp
  show "pid_somme (feed_pairs (?k + 1) i q st)
       = c_int (pid_somme st + (target_dbfs st - (if sample_index st = 0 then max_dbfs st
                           else max (max_dbfs st) (lut_at (dbfs_lut st) i q))))"
    unfolding split using close1(3) open1(2) open1(6) m1 by simp
  show "sample_index (feed_pairs (?k + 1) i q st) = max_samples st - 1"
    unfolding split using close1(4) open1(7) by simp
qed

lemma agc_running_lut [simp]:
  "lut_at (dbfs_lut agc_running) 158 128 = - 480" "lut_at (dbfs_lut agc_running) 30 128 = 0"
  "lut_at (dbfs_lut agc_running) 159 128 = - 970"
  by (simp_all add: agc_running_def lut_at_init dbfs_cell_center dbfs_cell_30_128
      dbfs_cell_159_128 DBFS_MIN_def)

lemma agc_running_fields [simp]:
  "target_dbfs agc_running = - 100" "sample_index agc_running = 409600"
  "max_samples agc_running = 409600" "max_dbfs agc_running = - 480"
  "max_event agc_running = 0" "pid_somme agc_running = 0"
  by (simp_all add: agc_running_def DBFS_MIN_def)

subsection \<open>The peak of a block\<close>

text \<open>
  C1 asks that every consecutive pair of a block is looked up and folded into the running
  maximum, so that after a block the peak is the maximum of the old peak and the scores of
  all its pairs. The loop reads the first pair of the buffer at every iteration. On the
  buffer of the two pairs \<open>(158, 128)\<close>, with score \<open>- 480\<close>, and \<open>(30, 128)\<close>, with
  score \<open>0\<close>, delivered at the start of a window, the peak of the code stays at
  \<open>- 480\<close>; the maximum over both pairs is \<open>0\<close>.
\<close>

theorem C1_first_pair_only:
  "max_dbfs (rtlsdr_callback_agc [158, 128, 30, 128] agc_running) = - 480
   \<and> peak_spec (dbfs_lut agc_running) (max_dbfs agc_running) [158, 128, 30, 128] = 0"
proof -
  have "max_dbfs (rtlsdr_callback_agc [158, 128, 30, 128] agc_running) = - 480"
    by (simp add: rtlsdr_callback_agc_def window_count_open peak_fold_max)
  moreover have "peak_spec (dbfs_lut agc_running) (max_dbfs agc_running) [158, 128, 30, 128] = 0"
    by (simp add: peak_spec_def)
  ultimately show ?thesis by simp
qed

subsection \<open>The window\<close>

text \<open>
  C2 has one observation after exactly \<open>window_length\<close> pairs. From the state at the
  start of streaming, with windows of 409600 pairs, a block of exactly 409600 equal pairs
  posts no event and leaves the accumulator alone.
\<close>

theorem C2_counterexample:
  "max_samples agc_running = 409600
   \<and> max_event (feed_pairs 409600 30 128 agc_running) = max_event agc_running
   \<and> pid_somme (feed_pairs 409600 30 128 agc_running) = pid_somme agc_running"
  using feed_pairs_open(1,2) [of agc_running 409600 30 128] by simp

text \<open>
  C2, as the code has it, for blocks of equal pairs while the gain control is active.
  Each pair takes one unit from a positive counter, and as long as the counter covers the
  block nothing is emitted. A pair that finds the counter at zero closes the window: the
  event is posted once, the distance from the target to the running peak goes to
  \<open>delta_gain\<close> and to the accumulator, the counter restarts at \<open>max_samples - 1\<close>, and
  the peak restarts at the sentinel with the arriving pair folded in. So from the start
  of streaming the observation comes with pair number \<open>max_samples + 1\<close>, and it carries
  the larger of the sentinel and the score of the pairs. The state lives in globals, so
  two blocks in a row act as their concatenation.
\<close>

theorem C2_window_closure:
  assumes "target_dbfs st < 0"
  shows "(int n \<le> sample_index st \<longrightarrow>
            max_event (feed_pairs n i q st) = max_event st
          \<and> pid_somme (feed_pairs n i q st) = pid_somme st
          \<and> sample_index (feed_pairs n i q st) = sample_index st - int n)
       \<and> (sample_index st = 0 \<longrightarrow>
            max_event (feed_pairs 1 i q st) = max_event st + 1
          \<and> delta_gain (feed_pairs 1 i q st) = target_dbfs st - max_dbfs st
          \<and> pid_somme (feed_pairs 1 i q st) = c_int (pid_somme st + (target_dbfs st - max_dbfs st))
          \<and> sample_index (feed_pairs 1 i q st) = max_samples st - 1
          \<and> max_dbfs (feed_pairs 1 i q st) = max DBFS_MIN (lut_at (dbfs_lut st) i q))
       \<and> (0 < max_samples st \<and> sample_index st = max_samples st \<and> max_dbfs st = DBFS_MIN \<longrightarrow>
            max_event (feed_pairs (nat (max_samples st) + 1) i q st) = max_event st + 1
          \<and> delta_gain (feed_pairs (nat (max_samples st) + 1) i q st)
              = target_dbfs st - max DBFS_MIN (lut_at (dbfs_lut st) i q)
          \<and> pid_somme (feed_pairs (nat (max_samples st) + 1) i q st)
              = c_int (pid_somme st + (target_dbfs st - max DBFS_MIN (lut_at (dbfs_lut st) i q)))
          \<and> sample_index (feed_pairs (nat (max_samples st) + 1) i q st) = max_samples st - 1)
       \<and> feed_pairs b i q (feed_pairs a i q st) = feed_pairs (a + b) i q st"
proof (intro conjI impI)
  assume "int n \<le> sample_index st"
  note o = feed_pairs_open [OF assms this, of i q]
  show "max_event (feed_pairs n i q st) = max_event st" by (rule o(1))
  show "pid_somme (feed_pairs n i q st) = pid_somme st" by (rule o(2))
  show "sample_index (feed_pairs n i q st) = sample_index st - int n" by (rule o(3))
next
  assume "sample_index st = 0"
  note c = feed_pairs_close [OF assms this, of i q]
  show "max_event (feed_pairs 1 i q st) = max_event st + 1" by (rule c(1))
  show "delta_gain (feed_pairs 1 i q st) = target_dbfs st - max_dbfs st" by (rule c(2))
  show "pid_somme (feed_pairs 1 i q st) = c_int (pid_somme st + (target_dbfs st - max_dbfs st))"
    by (rule c(3))
  show "sample_index (feed_pairs 1 i q st) = max_samples st - 1" by (rule c(4))
  show "max_dbfs (feed_pairs 1 i q st) = max DBFS_MIN (lut_at (dbfs_lut st) i q)" by (rule c(5))
next
  assume w: "0 < max_samples st \<and> sample_index st = max_samples st \<and> max_dbfs st = DBFS_MIN"
  then have nn: "0 \<le> sample_index st" by simp
  note f = feed_pairs_window [OF assms nn, of i q]
  show "max_event (feed_pairs (nat (max_samples st) + 1) i q st) = max_event st + 1"
    using f(1) w by simp
  show "delta_gain (feed_pairs (nat (max_samples st) + 1) i q st)
      = target_dbfs st - max DBFS_MIN (lut_at (dbfs_lut st) i q)"
    using f(2) w by simp
  show "pid_somme (feed_pairs (nat (max_samples st) + 1) i q st)
      = c_int (pid_somme st + (target_dbfs st - max DBFS_MIN (lut_at (dbfs_lut st) i q)))"
    using f(3) w by simp
  show "sample_index (feed_pairs (nat (max_samples st) + 1) i q st) = max_samples st - 1"
    using f(4) w by simp
next
  show "feed_pairs b i q (feed_pairs a i q st) = feed_pairs (a + b) i q st"
    using assms by (rule feed_pairs_add)
qed

theorem C2_window_closure_witness:
  "max_event (feed_pairs 409600 30 128 agc_running) = 0
   \<and> sample_index (feed_pairs 409600 30 128 agc_running) = 0
   \<and> max_event (feed_pairs 409601 30 128 agc_running) = 1
   \<and> delta_gain (feed_pairs 409601 30 128 agc_running) = - 100
   \<and> pid_somme (feed_pairs 409601 30 128 agc_running) = - 100
   \<and> sample_index (feed_pairs 409601 30 128 agc_running) = 409599
   \<and> max_event (feed_pairs 1 30 128 (feed_pairs 409600 30 128 agc_running)) = 1
   \<and> lut_at (dbfs_lut agc_running) 159 128 = - 970
   \<and> delta_gain (feed_pairs 409601 159 128 agc_running) = 380"
proof -
  have t: "target_dbfs agc_running < 0" by simp
  note a = C2_window_closure [OF t, of 409600 30 128 409600 1]
  have t': "target_dbfs (feed_pairs 409600 30 128 agc_running) < 0"
    using feed_pairs_open(6) [OF t, of 409600 30 128] by simp
  note b = C2_window_closure [OF t', of 0 30 128 0 0]
  note c = C2_window_closure [OF t, of 0 159 128 0 0]
  from a b c show ?thesis by (simp add: DBFS_MIN_def c_int_def)
qed

subsection \<open>Pairs of magnitude zero\<close>

lemma peak_fold_sentinel:
  assumes "lut_at (dbfs_lut st) (buf ! 0) (buf ! 1) = DBFS_MIN" "DBFS_MIN \<le> max_dbfs st"
  shows "peak_fold buf st = st"
  using assms by (simp add: peak_fold_def)

lemma rtlsdr_callback_agc_floor:
  "DBFS_MIN \<le> max_dbfs st \<Longrightarrow> DBFS_MIN \<le> max_dbfs (rtlsdr_callback_agc buf st)"
  by (simp add: rtlsdr_callback_agc_def callback_loop_floor)

text \<open>
  C9. The pair \<open>i = 158\<close>, \<open>q = 128\<close> has magnitude zero; its entry in the table that
  \<open>dbfs_lut_init\<close> builds is the sentinel, whatever \<open>logf\<close> is, and the callback treats
  it like any other pair. The running peak never falls below the sentinel, and the
  comparison is strict, so folding such a pair in leaves the state as it was. A window
  that opens at the sentinel and sees only such pairs closes with the sentinel as its
  peak: the event is posted once and the accumulator receives \<open>target_dbfs - DBFS_MIN\<close>.
\<close>

theorem C9_zero_magnitude:
  assumes "dbfs_lut st = dbfs_lut_init lg r" "target_dbfs st < 0"
  shows "lut_at (dbfs_lut st) 158 128 = DBFS_MIN
       \<and> (DBFS_MIN \<le> max_dbfs st \<longrightarrow>
            peak_fold (iq_block 1 158 128) st = st
          \<and> DBFS_MIN \<le> max_dbfs (rtlsdr_callback_agc buf st))
       \<and> (max_dbfs st = DBFS_MIN \<and> 0 \<le> sample_index st \<longrightarrow>
            max_event (feed_pairs (nat (sample_index st) + 1) 158 128 st) = max_event st + 1
          \<and> delta_gain (feed_pairs (nat (sample_index st) + 1) 158 128 st)
              = target_dbfs st - DBFS_MIN
          \<and> pid_somme (feed_pairs (nat (sample_index st) + 1) 158 128 st)
              = c_int (pid_somme st + (target_dbfs st - DBFS_MIN)))"
proof -
  have center: "lut_at (dbfs_lut st) 158 128 = DBFS_MIN"
    by (simp add: assms(1) lut_at_init dbfs_cell_center)
  have keep: "peak_fold (iq_block 1 158 128) st = st" if "DBFS_MIN \<le> max_dbfs st"
    using that center by (intro peak_fold_sentinel) (simp_all add: iq_block_def)
  have window:
    "max_event (feed_pairs (nat (sample_index st) + 1) 158 128 st) = max_event st + 1
     \<and> delta_gain (feed_pairs (nat (sample_index st) + 1) 158 128 st) = target_dbfs st - DBFS_MIN
     \<and> pid_somme (feed_pairs (nat (sample_index st) + 1) 158 128 st)
         = c_int (pid_somme st + (target_dbfs st - DBFS_MIN))"
    if "max_dbfs st = DBFS_MIN" "0 \<le> sample_index st"
    using feed_pairs_window [OF assms(2) that(2), of 158 128] that(1) center by simp
  from center keep window rtlsdr_callback_agc_floor [of st buf] show ?thesis by blast
qed

theorem C9_zero_magnitude_witness:
  "lut_at (dbfs_lut agc_running) 158 128 = - 480
   \<and> peak_fold (iq_block 1 158 128) agc_running = agc_running
   \<and> max_event (feed_pairs 409601 158 128 agc_running) = 1
   \<and> delta_gain (feed_pairs 409601 158 128 agc_running) = 380
   \<and> pid_somme (feed_pairs 409601 158 128 agc_running) = 380"
proof -
  have l: "dbfs_lut agc_running = dbfs_lut_init ln id" by (simp add: agc_running_def)
  have t: "target_dbfs agc_running < 0" by simp
  from C9_zero_magnitude [OF l t, of "[]"] show ?thesis by (simp add: DBFS_MIN_def c_int_def)
qed

subsection \<open>The two conditionals on the accumulator\<close>

lemma pid_steps:
  "pid_decrease (pid_increase (somme, idx)) =
     (if somme > 300 then (somme - 300, idx + 1)
      else if somme < - 300 then (somme + 300, idx - 1)
      else (somme, idx))"
  by (simp add: pid_increase_def pid_decrease_def)

subsection \<open>The gain thread\<close>

lemma new_gain_index_of_eq:
  "new_gain_index_of st =
     clamp_index (gain_count st)
       (gain_index st + snd (pid_decrease (pid_increase (pid_somme st, 0))))"
  by (simp add: new_gain_index_of_def pid_steps)

lemma clamp_index_spec:
  "2 \<le> count \<Longrightarrow> clamp_index count v = clamp_spec v 1 (count - 1)"
  by (simp add: clamp_index_def clamp_spec_def)

lemma gain_wake_eq:
  "gain_wake x st =
     (let st1 = st\<lparr>max_event := 0,
                   pid_somme := fst (pid_decrease (pid_increase (pid_somme st, gain_index st)))\<rparr>
      in if new_gain_index_of st \<noteq> gain_index st then
           (case gains_read (gains st) (new_gain_index_of st) of
              Inl e \<Rightarrow> Inl e
            | Inr g \<Rightarrow> Inr (st1\<lparr>current_gain := g,
                              dev := snd (verbose_gain_set x (dev st) g),
                              gain_index := new_gain_index_of st\<rparr>))
         else Inr st1)"
  by (simp add: gain_wake_def new_gain_index_of_def clear_event_def Let_def split_beta
      split: sum.splits)

lemma gain_wake_index:
  "gain_wake x st = Inr st' \<Longrightarrow>
     gain_index st' = new_gain_index_of st \<and> gain_count st' = gain_count st"
  by (auto simp: gain_wake_eq Let_def split: if_splits sum.splits)

lemma agc_running_gains [simp]:
  "gain_count agc_running = 29" "gain_index agc_running = 14"
  "gains_read (gains agc_running) 15 = Inr 280" "gains_read (gains agc_running) 13 = Inr 229"
  "dev agc_running = [254]"
  by (simp_all add: agc_running_def gains_read_def r820t_gains_def)

lemma pid_never_both:
  "\<not> (pid_increase p \<noteq> p \<and> pid_decrease (pid_increase p) \<noteq> pid_increase p)"
  by (cases p) (simp add: pid_increase_def pid_decrease_def)

lemma clamp_index_range:
  "2 \<le> count \<Longrightarrow> 1 \<le> clamp_index count v \<and> clamp_index count v \<le> count - 1"
  by (simp add: clamp_index_def)

lemma clamp_index_near:
  "2 \<le> count \<Longrightarrow> 1 \<le> idx \<Longrightarrow> idx \<le> count - 1 \<Longrightarrow> \<bar>s\<bar> \<le> 1 \<Longrightarrow>
   \<bar>clamp_index count (idx + s) - idx\<bar> \<le> 1"
  unfolding clamp_index_def by (simp split: if_splits) linarith

lemma pid_step_small: "\<bar>snd (pid_decrease (pid_increase (somme, idx))) - idx\<bar> \<le> 1"
  by (simp add: pid_steps)

lemma new_gain_index_inv:
  assumes "2 \<le> gain_count st" "1 \<le> gain_index st" "gain_index st \<le> gain_count st - 1"
  shows "1 \<le> new_gain_index_of st" "new_gain_index_of st \<le> gain_count st - 1"
    "\<bar>new_gain_index_of st - gain_index st\<bar> \<le> 1"
proof -
  let ?s = "snd (pid_decrease (pid_increase (pid_somme st, 0)))"
  have s: "\<bar>?s\<bar> \<le> 1" using pid_step_small [of "pid_somme st" 0] by simp
  show "1 \<le> new_gain_index_of st" "new_gain_index_of st \<le> gain_count st - 1"
    using clamp_index_range [OF assms(1)] by (simp_all add: new_gain_index_of_eq)
  show "\<bar>new_gain_index_of st - gain_index st\<bar> \<le> 1"
    unfolding new_gain_index_of_eq using assms s by (rule clamp_index_near)
qed

lemma gain_wake_returns:
  assumes "0 \<le> new_gain_index_of st" "new_gain_index_of st < int (length (gains st))"
  shows "\<exists>st'. gain_wake x st = Inr st'"
proof -
  from assms have "nat (new_gain_index_of st) < length (gains st)" by linarith
  with assms(1) show ?thesis by (simp add: gain_wake_eq gains_read_def Let_def)
qed

text \<open>
  The new index for a table of at least two gains. The pending step \<open>s\<close> is what lines
  171--178 make of the accumulator; the new index is \<open>gain_index + s\<close> brought into the
  range from 1 to \<open>gain_count - 1\<close>, which is \<open>clamp(gain_index + s, 1, gain_count - 1)\<close>
  as long as that range is not empty.
\<close>

lemma new_gain_index_clamp:
  assumes "s = snd (pid_decrease (pid_increase (pid_somme st, 0)))"
  shows "(s = - 1 \<or> s = 0 \<or> s = 1)
       \<and> (s = 1 \<longleftrightarrow> 300 < pid_somme st) \<and> (s = - 1 \<longleftrightarrow> pid_somme st < - 300)
       \<and> new_gain_index_of st =
           (if gain_index st + s < 1 then 1
            else if gain_index st + s > gain_count st - 1 then gain_count st - 1
            else gain_index st + s)
       \<and> (2 \<le> gain_count st \<longrightarrow>
            new_gain_index_of st = clamp_spec (gain_index st + s) 1 (gain_count st - 1))
       \<and> (gain_index st = 1 \<and> s = - 1 \<longrightarrow> new_gain_index_of st = 1)
       \<and> (\<forall>st'. gain_wake x st = Inr st' \<longrightarrow> gain_index st' = new_gain_index_of st)"
proof -
  have s: "s = (if pid_somme st > 300 then 1 else if pid_somme st < - 300 then - 1 else 0)"
    unfolding assms by (simp add: pid_steps)
  have n: "new_gain_index_of st = clamp_index (gain_count st) (gain_index st + s)"
    unfolding assms by (rule new_gain_index_of_eq)
  have "s = - 1 \<or> s = 0 \<or> s = 1" using s by simp
  moreover have "s = 1 \<longleftrightarrow> 300 < pid_somme st" using s by simp
  moreover have "s = - 1 \<longleftrightarrow> pid_somme st < - 300" using s by simp
  moreover have "new_gain_index_of st =
           (if gain_index st + s < 1 then 1
            else if gain_index st + s > gain_count st - 1 then gain_count st - 1
            else gain_index st + s)"
    unfolding n by (simp add: clamp_index_def)
  moreover have "2 \<le> gain_count st \<longrightarrow>
      new_gain_index_of st = clamp_spec (gain_index st + s) 1 (gain_count st - 1)"
    unfolding n by (simp add: clamp_index_spec)
  moreover have "gain_index st = 1 \<and> s = - 1 \<longrightarrow> new_gain_index_of st = 1"
    unfolding n by (simp add: clamp_index_def)
  moreover have "\<forall>st'. gain_wake x st = Inr st' \<longrightarrow> gain_index st' = new_gain_index_of st"
    using gain_wake_index by blast
  ultimately show ?thesis by blast
qed

lemma main_gain_one_gain:
  "main_gain (test_ext 0 [0]) (- 100) (globals0 [] 2048000) = Inr agc_one_gain"
  by (simp add: main_gain_def initialize_gains_def max_thread_init_def MAX_HZ_def c_div_def
      test_ext_def globals0_def gains_read_def agc_one_gain_def)

text \<open>
  C5 asks for \<open>new_index = clamp(current_index + s, 1, count - 1)\<close> at every actuation and
  for every current index, with index 0 never reached; line 179 promises that the new
  index points to a usable gain. Lines 180--184 miss the table whose range from 1 to
  \<open>count - 1\<close> is empty. For a tuner whose table is the single gain 0, \<open>main\<close> starts the
  gain control at index \<open>1 / 2 = 0\<close>. With no step pending, the first wake moves to
  index 1, which is no entry of the table, and writes \<open>gains[1]\<close> to the device; the
  second wake, from index 1, computes \<open>count - 1 = 0\<close>, where the clamp gives 1, and the
  index is back at 0.
\<close>

theorem C5_one_gain_table:
  "main_gain (test_ext 0 [0]) (- 100) (globals0 [] 2048000) = Inr agc_one_gain
   \<and> gain_count agc_one_gain = 1 \<and> gain_index agc_one_gain = 0
   \<and> gain_wake (test_ext 0 [0]) agc_one_gain
       = Inr (agc_one_gain\<lparr>dev := [0, 0], gain_index := 1\<rparr>)
   \<and> new_gain_index_of (agc_one_gain\<lparr>dev := [0, 0], gain_index := 1\<rparr>) = 0
   \<and> clamp_spec (1 + 0) 1 (gain_count agc_one_gain - 1) = 1
   \<and> gain_wake (test_ext 0 [0]) (agc_one_gain\<lparr>dev := [0, 0], gain_index := 1\<rparr>)
       = Inr (agc_one_gain\<lparr>dev := [0, 0, 0], gain_index := 0\<rparr>)"
proof -
  have f: "gain_count agc_one_gain = 1" "gain_index agc_one_gain = 0"
    "pid_somme agc_one_gain = 0" "max_event agc_one_gain = 0" "current_gain agc_one_gain = 0"
    "dev agc_one_gain = [0]" "gains agc_one_gain = 0 # replicate 99 0"
    by (simp_all add: agc_one_gain_def)
  have n0: "new_gain_index_of agc_one_gain = 1"
    by (simp add: new_gain_index_of_eq pid_steps clamp_index_def f)
  have n1: "new_gain_index_of (agc_one_gain\<lparr>dev := [0, 0], gain_index := 1\<rparr>) = 0"
    by (simp add: new_gain_index_of_eq pid_steps clamp_index_def f)
  have w0: "gain_wake (test_ext 0 [0]) agc_one_gain
      = Inr (agc_one_gain\<lparr>dev := [0, 0], gain_index := 1\<rparr>)"
    by (simp add: gain_wake_eq n0 pid_steps f gains_read_def test_ext_def)
  have w1: "gain_wake (test_ext 0 [0]) (agc_one_gain\<lparr>dev := [0, 0], gain_index := 1\<rparr>)
      = Inr (agc_one_gain\<lparr>dev := [0, 0, 0], gain_index := 0\<rparr>)"
    by (simp add: gain_wake_eq n1 pid_steps f gains_read_def test_ext_def)
  have c: "clamp_spec (1 + 0) 1 (gain_count agc_one_gain - 1) = 1"
    by (simp add: clamp_spec_def f)
  from main_gain_one_gain f(1,2) w0 n1 c w1 show ?thesis by (simp only:)
qed

text \<open>
  C6. A wake calls \<open>verbose_gain_set\<close> exactly when the new index differs from the current
  one. If they are equal, the device, \<open>current_gain\<close> and \<open>gain_index\<close> are untouched. If
  they differ, the gain at the new index is read from the table, the device is the one
  that a single call leaves, and \<open>gain_index\<close> is the new index: the status that the call
  returns does not occur in the result, so a failed call changes nothing in what follows
  and is not repeated: two gain-set functions that leave the same device, whatever status
  they report, lead to the same state.
\<close>

theorem C6_gain_set_call:
  "(new_gain_index_of st = gain_index st \<longrightarrow>
      gain_wake x st =
        Inr (st\<lparr>max_event := 0,
                pid_somme := fst (pid_decrease (pid_increase (pid_somme st, gain_index st)))\<rparr>))
   \<and> (new_gain_index_of st \<noteq> gain_index st
        \<and> gains_read (gains st) (new_gain_index_of st) = Inr g \<longrightarrow>
      gain_wake x st =
        Inr (st\<lparr>max_event := 0,
                pid_somme := fst (pid_decrease (pid_increase (pid_somme st, gain_index st))),
                current_gain := g,
                dev := snd (verbose_gain_set x (dev st) g),
                gain_index := new_gain_index_of st\<rparr>))
   \<and> ((\<forall>d k. snd (verbose_gain_set x d k) = snd (verbose_gain_set x' d k)) \<longrightarrow>
        gain_wake x st = gain_wake x' st)"
proof (intro conjI impI)
  assume "new_gain_index_of st = gain_index st"
  then show "gain_wake x st =
      Inr (st\<lparr>max_event := 0,
              pid_somme := fst (pid_decrease (pid_increase (pid_somme st, gain_index st)))\<rparr>)"
    by (simp add: gain_wake_eq)
next
  assume "new_gain_index_of st \<noteq> gain_index st
      \<and> gains_read (gains st) (new_gain_index_of st) = Inr g"
  then show "gain_wake x st =
      Inr (st\<lparr>max_event := 0,
              pid_somme := fst (pid_decrease (pid_increase (pid_somme st, gain_index st))),
              current_gain := g,
              dev := snd (verbose_gain_set x (dev st) g),
              gain_index := new_gain_index_of st\<rparr>)"
    by (simp add: gain_wake_eq)
next
  assume "\<forall>d k. snd (verbose_gain_set x d k) = snd (verbose_gain_set x' d k)"
  then show "gain_wake x st = gain_wake x' st"
    by (simp add: gain_wake_eq Let_def split: sum.splits)
qed

theorem C6_gain_set_call_witness:
  "gain_wake (test_ext (- 1) r820t_gains) agc_running = Inr agc_running
   \<and> gain_wake (test_ext (- 1) r820t_gains) (agc_running\<lparr>pid_somme := 301\<rparr>)
       = Inr (agc_running\<lparr>pid_somme := 1, current_gain := 280, dev := [254, 280],
                          gain_index := 15\<rparr>)
   \<and> gain_wake (test_ext 0 r820t_gains) (agc_running\<lparr>pid_somme := 301\<rparr>)
       = Inr (agc_running\<lparr>pid_somme := 1, current_gain := 280, dev := [254, 280],
                          gain_index := 15\<rparr>)"
proof -
  have n0: "new_gain_index_of agc_running = 14"
    by (simp add: new_gain_index_of_eq pid_steps clamp_index_def)
  have n1: "new_gain_index_of (agc_running\<lparr>pid_somme := 301\<rparr>) = 15"
    by (simp add: new_gain_index_of_eq pid_steps clamp_index_def)
  let ?fail = "test_ext (- 1) r820t_gains" and ?ok = "test_ext 0 r820t_gains"
  have same: "\<forall>d k. snd (verbose_gain_set ?fail d k) = snd (verbose_gain_set ?ok d k)"
    by (simp add: test_ext_def)
  note a = C6_gain_set_call [of agc_running ?fail 0 ?ok]
  note b = C6_gain_set_call [of "agc_running\<lparr>pid_somme := 301\<rparr>" ?fail 280 ?ok]
  have 1: "gain_wake ?fail agc_running = Inr agc_running"
    using a n0 by (simp add: pid_steps)
  have 2: "gain_wake ?fail (agc_running\<lparr>pid_somme := 301\<rparr>)
      = Inr (agc_running\<lparr>pid_somme := 1, current_gain := 280, dev := [254, 280],
                         gain_index := 15\<rparr>)"
    using b n1 by (simp add: pid_steps) (simp add: test_ext_def)
  have 3: "gain_wake ?ok (agc_running\<lparr>pid_somme := 301\<rparr>)
      = gain_wake ?fail (agc_running\<lparr>pid_somme := 301\<rparr>)"
    using b same by simp
  from 1 2 3 show ?thesis by (simp only:)
qed

text \<open>
  C7. The two conditionals on the accumulator never both fire in one wake, so the index
  before clamping is at most one step from \<open>gain_index\<close>. For a table of at least two
  gains, an iteration of the thread that starts with \<open>1 \<le> gain_index \<le> gain_count - 1\<close>
  ends with it, and moves \<open>gain_index\<close> by at most 1; and when the table fits the array
  the iteration completes.
\<close>

theorem C7_one_step_per_wake:
  "\<not> (pid_increase p \<noteq> p \<and> pid_decrease (pid_increase p) \<noteq> pid_increase p)
   \<and> \<bar>snd (pid_decrease (pid_increase (somme, idx))) - idx\<bar> \<le> 1
   \<and> (2 \<le> gain_count st \<and> 1 \<le> gain_index st \<and> gain_index st \<le> gain_count st - 1
        \<and> thread_iteration x selected st = Inr st' \<longrightarrow>
          gain_count st' = gain_count st
        \<and> 1 \<le> gain_index st' \<and> gain_index st' \<le> gain_count st' - 1
        \<and> \<bar>gain_index st' - gain_index st\<bar> \<le> 1)
   \<and> (2 \<le> gain_count st \<and> gain_count st \<le> int (length (gains st))
        \<and> 1 \<le> gain_index st \<and> gain_index st \<le> gain_count st - 1 \<longrightarrow>
          (\<exists>st''. thread_iteration x selected st = Inr st''))"
proof (intro conjI impI)
  show "\<not> (pid_increase p \<noteq> p \<and> pid_decrease (pid_increase p) \<noteq> pid_increase p)"
    by (rule pid_never_both)
  show "\<bar>snd (pid_decrease (pid_increase (somme, idx))) - idx\<bar> \<le> 1"
    by (rule pid_step_small)
next
  assume h: "2 \<le> gain_count st \<and> 1 \<le> gain_index st \<and> gain_index st \<le> gain_count st - 1
      \<and> thread_iteration x selected st = Inr st'"
  then have inv: "2 \<le> gain_count st" "1 \<le> gain_index st" "gain_index st \<le> gain_count st - 1"
    by simp_all
  note n = new_gain_index_inv [OF inv]
  have st': "gain_index st' = gain_index st \<and> gain_count st' = gain_count st
      \<or> gain_index st' = new_gain_index_of st \<and> gain_count st' = gain_count st"
  proof (cases "selected > 0")
    case True
    with h have "gain_wake x st = Inr st'" by (simp add: thread_iteration_def)
    then show ?thesis using gain_wake_index by blast
  next
    case False
    with h have "st' = st" by (simp add: thread_iteration_def)
    then show ?thesis by simp
  qed
  show "gain_count st' = gain_count st" using st' by blast
  show "1 \<le> gain_index st'" using st' n(1) inv(2) by auto
  show "gain_index st' \<le> gain_count st' - 1" using st' n(2) inv(3) by auto
  show "\<bar>gain_index st' - gain_index st\<bar> \<le> 1" using st' n(3) by auto
next
  assume h: "2 \<le> gain_count st \<and> gain_count st \<le> int (length (gains st))
      \<and> 1 \<le> gain_index st \<and> gain_index st \<le> gain_count st - 1"
  then have inv: "2 \<le> gain_count st" "1 \<le> gain_index st" "gain_index st \<le> gain_count st - 1"
    by simp_all
  note n = new_gain_index_inv [OF inv]
  have "0 \<le> new_gain_index_of st" "new_gain_index_of st < int (length (gains st))"
    using n h by linarith+
  then have "\<exists>st''. gain_wake x st = Inr st''" by (rule gain_wake_returns)
  then show "\<exists>st''. thread_iteration x selected st = Inr st''"
    by (simp add: thread_iteration_def)
qed

theorem C7_one_step_per_wake_witness:
  "thread_iteration (test_ext 0 r820t_gains) 1 (agc_running\<lparr>pid_somme := 301\<rparr>)
     = Inr (agc_running\<lparr>pid_somme := 1, current_gain := 280, dev := [254, 280],
                        gain_index := 15\<rparr>)
   \<and> gain_count (agc_running\<lparr>pid_somme := 1, current_gain := 280, dev := [254, 280],
                        gain_index := 15\<rparr>) = 29
   \<and> \<bar>gain_index (agc_running\<lparr>pid_somme := 1, current_gain := 280, dev := [254, 280],
                        gain_index := 15\<rparr>) - gain_index agc_running\<bar> \<le> 1
   \<and> (\<exists>st''. thread_iteration (test_ext 0 r820t_gains) 0 agc_running = Inr st'')"
proof -
  let ?st = "agc_running\<lparr>pid_somme := 301\<rparr>"
  let ?st' = "agc_running\<lparr>pid_somme := 1, current_gain := 280, dev := [254, 280],
                        gain_index := 15\<rparr>"
  have run: "thread_iteration (test_ext 0 r820t_gains) 1 ?st = Inr ?st'"
    by (simp add: thread_iteration_def gain_wake_eq new_gain_index_of_eq pid_steps
        clamp_index_def test_ext_def)
  have len: "length (gains agc_running) = 100"
    by (simp add: agc_running_def r820t_gains_def)
  from C7_one_step_per_wake [of "(0, 0)" 0 0 ?st "test_ext 0 r820t_gains" 1 ?st'] run
    C7_one_step_per_wake [of "(0, 0)" 0 0 agc_running "test_ext 0 r820t_gains" 0 agc_running] len
  show ?thesis by simp
qed

subsection \<open>The loop of the thread\<close>








subsection \<open>The accumulator across the two threads\<close>

lemma c_int_id: "- 2147483648 \<le> v \<Longrightarrow> v < 2147483648 \<Longrightarrow> c_int v = v"
  by (simp add: c_int_def)

text \<open>One more than the largest \<open>int\<close> is the smallest.\<close>

lemma update_gain_pid_wraps:
  "pid_somme (update_gain_pid 1 (st\<lparr>pid_somme := 2147483647\<rparr>)) = - 2147483648"
  by (simp add: update_gain_pid_def c_int_def)

lemma post_observation_eq:
  "post_observation delta st =
     st\<lparr>delta_gain := delta, pid_somme := c_int (pid_somme st + delta),
        max_event := Suc (max_event st)\<rparr>"
  by (simp add: post_observation_def update_gain_pid_def signal_event_def)

lemma window_count_post:
  "sample_index st \<le> 0 \<Longrightarrow>
   window_count st =
     (post_observation (target_dbfs st - max_dbfs st) st)
       \<lparr>sample_index := max_samples st - 1, max_dbfs := DBFS_MIN\<rparr>"
  by (simp add: window_count_close post_observation_eq)

lemma gain_wake_accumulator:
  assumes "gain_wake x st = Inr st'"
  shows "pid_somme st' =
      (if 300 < pid_somme st then pid_somme st - 300
       else if pid_somme st < - 300 then pid_somme st + 300
       else pid_somme st)"
    and "gain_index st' =
      clamp_index (gain_count st)
        (gain_index st + (if 300 < pid_somme st then 1
                          else if pid_somme st < - 300 then - 1 else 0))"
proof -
  have n: "new_gain_index_of st =
      clamp_index (gain_count st)
        (gain_index st + (if 300 < pid_somme st then 1
                          else if pid_somme st < - 300 then - 1 else 0))"
    by (simp add: new_gain_index_of_eq pid_steps)
  show "pid_somme st' =
      (if 300 < pid_somme st then pid_somme st - 300
       else if pid_somme st < - 300 then pid_somme st + 300
       else pid_somme st)"
    using assms by (auto simp: gain_wake_eq Let_def pid_steps split: if_splits sum.splits)
  show "gain_index st' =
      clamp_index (gain_count st)
        (gain_index st + (if 300 < pid_somme st then 1
                          else if pid_somme st < - 300 then - 1 else 0))"
    using gain_wake_index [OF assms] n by simp
qed

lemma gain_wake_quiet:
  assumes "\<bar>pid_somme st\<bar> \<le> 300" "2 \<le> gain_count st"
    "1 \<le> gain_index st" "gain_index st \<le> gain_count st - 1"
  shows "gain_wake x st = Inr (st\<lparr>max_event := 0\<rparr>)"
proof -
  from assms(1) have "\<not> 300 < pid_somme st" "\<not> pid_somme st < - 300" by linarith+
  then have p: "pid_decrease (pid_increase (pid_somme st, gain_index st))
      = (pid_somme st, gain_index st)"
    by (simp add: pid_steps)
  then have "new_gain_index_of st = gain_index st"
    using assms(2-4) by (simp add: new_gain_index_of_def clamp_index_def)
  then show ?thesis by (simp add: gain_wake_eq p)
qed

lemma gain_wake_up:
  assumes "300 < pid_somme st" "2 \<le> gain_count st" "gain_count st \<le> int (length (gains st))"
    "1 \<le> gain_index st" "gain_index st \<le> gain_count st - 1"
  shows "gain_wake x st =
      Inr (if gain_index st + 1 \<le> gain_count st - 1
           then st\<lparr>max_event := 0, pid_somme := pid_somme st - 300,
                   current_gain := gains st ! nat (gain_index st + 1),
                   dev := snd (verbose_gain_set x (dev st) (gains st ! nat (gain_index st + 1))),
                   gain_index := gain_index st + 1\<rparr>
           else st\<lparr>max_event := 0, pid_somme := pid_somme st - 300\<rparr>)"
proof -
  have p: "pid_decrease (pid_increase (pid_somme st, gain_index st))
      = (pid_somme st - 300, gain_index st + 1)"
    using assms(1) by (simp add: pid_steps)
  have c: "new_gain_index_of st = clamp_index (gain_count st) (gain_index st + 1)"
    by (simp add: new_gain_index_of_def p)
  show ?thesis
  proof (cases "gain_index st + 1 \<le> gain_count st - 1")
    case True
    then have n: "new_gain_index_of st = gain_index st + 1"
      unfolding c using assms(4) by (simp add: clamp_index_def)
    have "nat (gain_index st + 1) < length (gains st)" using True assms(3,4) by linarith
    then have "gains_read (gains st) (gain_index st + 1) = Inr (gains st ! nat (gain_index st + 1))"
      using assms(4) by (simp add: gains_read_def)
    with True n show ?thesis by (simp add: gain_wake_eq p)
  next
    case False
    then have n: "new_gain_index_of st = gain_index st"
      unfolding c using assms(4,5) by (simp add: clamp_index_def)
    with False show ?thesis by (simp add: gain_wake_eq p)
  qed
qed

lemma gain_wake_down:
  assumes "pid_somme st < - 300" "2 \<le> gain_count st" "gain_count st \<le> int (length (gains st))"
    "1 \<le> gain_index st" "gain_index st \<le> gain_count st - 1"
  shows "gain_wake x st =
      Inr (if 1 \<le> gain_index st - 1
           then st\<lparr>max_event := 0, pid_somme := pid_somme st + 300,
                   current_gain := gains st ! nat (gain_index st - 1),
                   dev := snd (verbose_gain_set x (dev st) (gains st ! nat (gain_index st - 1))),
                   gain_index := gain_index st - 1\<rparr>
           else st\<lparr>max_event := 0, pid_somme := pid_somme st + 300\<rparr>)"
proof -
  have p: "pid_decrease (pid_increase (pid_somme st, gain_index st))
      = (pid_somme st + 300, gain_index st - 1)"
    using assms(1) by (simp add: pid_steps)
  have c: "new_gain_index_of st = clamp_index (gain_count st) (gain_index st - 1)"
    by (simp add: new_gain_index_of_def p)
  show ?thesis
  proof (cases "1 \<le> gain_index st - 1")
    case True
    then have n: "new_gain_index_of st = gain_index st - 1"
      unfolding c using assms(5) by (simp add: clamp_index_def)
    have "nat (gain_index st - 1) < length (gains st)" using True assms(3,5) by linarith
    then have "gains_read (gains st) (gain_index st - 1) = Inr (gains st ! nat (gain_index st - 1))"
      using True by (simp add: gains_read_def)
    with True n show ?thesis by (simp add: gain_wake_eq p)
  next
    case False
    then have n: "new_gain_index_of st = gain_index st"
      unfolding c using assms(4,5) by (simp add: clamp_index_def)
    with False show ?thesis by (simp add: gain_wake_eq p)
  qed
qed

lemma run_events_append:
  "run_events x (a @ b) st =
     (case run_events x a st of Inl e \<Rightarrow> Inl e | Inr st' \<Rightarrow> run_events x b st')"
  by (induction x a st rule: run_events.induct) (simp_all split: sum.splits)

lemma deltas_of_append: "deltas_of (a @ b) = deltas_of a @ deltas_of b"
  by (induction a rule: deltas_of.induct) simp_all

lemma run_events_quiet:
  assumes "\<And>k. k \<le> length (deltas_of evs) \<Longrightarrow>
             \<bar>pid_somme st + sum_list (take k (deltas_of evs))\<bar> \<le> 300"
    and "2 \<le> gain_count st" "1 \<le> gain_index st" "gain_index st \<le> gain_count st - 1"
  shows "\<exists>st'. run_events x evs st = Inr st'
      \<and> pid_somme st' = pid_somme st + sum_list (deltas_of evs)
      \<and> gain_index st' = gain_index st \<and> gain_count st' = gain_count st
      \<and> gains st' = gains st \<and> dev st' = dev st \<and> current_gain st' = current_gain st"
  using assms
proof (induction x evs st rule: run_events.induct)
  case (1 x st)
  then show ?case by simp
next
  case (2 x delta evs st)
  let ?st1 = "post_observation delta st"
  from "2.prems"(1) [of 1] have d: "\<bar>pid_somme st + delta\<bar> \<le> 300" by simp
  then have p1: "pid_somme ?st1 = pid_somme st + delta"
    by (simp add: post_observation_eq c_int_id)
  have q: "\<bar>pid_somme ?st1 + sum_list (take k (deltas_of evs))\<bar> \<le> 300"
    if "k \<le> length (deltas_of evs)" for k
    using "2.prems"(1) [of "Suc k"] that by (simp add: p1 add.assoc)
  have "\<exists>st'. run_events x evs ?st1 = Inr st'
      \<and> pid_somme st' = pid_somme ?st1 + sum_list (deltas_of evs)
      \<and> gain_index st' = gain_index ?st1 \<and> gain_count st' = gain_count ?st1
      \<and> gains st' = gains ?st1 \<and> dev st' = dev ?st1 \<and> current_gain st' = current_gain ?st1"
    using q "2.prems"(2-4) by (intro "2.IH") (simp_all add: post_observation_eq)
  then show ?case by (simp add: p1 add.assoc) (simp add: post_observation_eq)
next
  case (3 x evs st)
  let ?st1 = "st\<lparr>max_event := 0\<rparr>"
  from "3.prems"(1) [of 0] have "\<bar>pid_somme st\<bar> \<le> 300" by simp
  then have w: "gain_wake x st = Inr ?st1"
    using "3.prems"(2-4) by (rule gain_wake_quiet)
  have "\<exists>st'. run_events x evs ?st1 = Inr st'
      \<and> pid_somme st' = pid_somme ?st1 + sum_list (deltas_of evs)
      \<and> gain_index st' = gain_index ?st1 \<and> gain_count st' = gain_count ?st1
      \<and> gains st' = gains ?st1 \<and> dev st' = dev ?st1 \<and> current_gain st' = current_gain ?st1"
    using "3.prems" by (intro "3.IH" [OF w]) simp_all
  then show ?case by (simp add: w)
qed

lemma feed_two_windows:
  "feed_pairs 819456 158 128 agc_running =
     agc_running\<lparr>delta_gain := 380, pid_somme := 760, max_event := 2,
                 sample_index := 409344\<rparr>"
proof -
  let ?b = "[158, 128] :: u8 list"
  have lv: "lut_at (dbfs_lut st) (?b ! 0) (?b ! 1) = - 480"
    if "dbfs_lut st = dbfs_lut agc_running" for st :: "(int list) agc"
    using that by simp
  let ?s1 = "agc_running\<lparr>sample_index := 0\<rparr>"
  have 1: "callback_loop 409600 ?b agc_running = ?s1"
    by (subst callback_loop_open) (simp_all add: lv)
  let ?s2 = "agc_running\<lparr>delta_gain := 380, pid_somme := 380, max_event := 1,
      sample_index := 409599\<rparr>"
  have 2: "callback_loop 1 ?b ?s1 = ?s2"
    by (subst callback_step_close) (simp_all add: lv DBFS_MIN_def c_int_def del: callback_loop.simps One_nat_def)
  let ?s3 = "agc_running\<lparr>delta_gain := 380, pid_somme := 380, max_event := 1,
      sample_index := 0\<rparr>"
  have 3: "callback_loop 409599 ?b ?s2 = ?s3"
    by (subst callback_loop_open) (simp_all add: lv)
  let ?s4 = "agc_running\<lparr>delta_gain := 380, pid_somme := 760, max_event := 2,
      sample_index := 409599\<rparr>"
  have 4: "callback_loop 1 ?b ?s3 = ?s4"
    by (subst callback_step_close) (simp_all add: lv DBFS_MIN_def c_int_def del: callback_loop.simps One_nat_def)
  let ?s5 = "agc_running\<lparr>delta_gain := 380, pid_somme := 760, max_event := 2,
      sample_index := 409344\<rparr>"
  have 5: "callback_loop 255 ?b ?s4 = ?s5"
    by (subst callback_loop_open) (simp_all add: lv)
  have "callback_loop (409600 + (1 + (409599 + (1 + 255)))) ?b agc_running = ?s5"
    by (simp only: callback_loop_add 1 2 3 4 5)
  moreover have "(409600 + (1 + (409599 + (1 + 255)))) = (819456 :: nat)" by simp
  ultimately have "callback_loop 819456 ?b agc_running = ?s5" by (simp only:)
  then show ?thesis by (simp add: feed_pairs_loop del: callback_loop.simps)
qed

lemma run_events_last_wake:
  assumes quiet: "\<And>k. k \<le> length (deltas_of evs) \<Longrightarrow>
             \<bar>pid_somme st + sum_list (take k (deltas_of evs))\<bar> \<le> 300"
    and inv: "2 \<le> gain_count st" "gain_count st \<le> int (length (gains st))"
      "1 \<le> gain_index st" "gain_index st \<le> gain_count st - 1"
    and total: "s = pid_somme st + sum_list (deltas_of evs) + d"
    and range: "- 2147483648 \<le> s" "s < 2147483648"
  shows "\<exists>st1. run_events x evs st = Inr st1
      \<and> run_events x (evs @ [Observe d, Wake]) st = gain_wake x (post_observation d st1)
      \<and> pid_somme (post_observation d st1) = s
      \<and> gain_index (post_observation d st1) = gain_index st
      \<and> gain_count (post_observation d st1) = gain_count st
      \<and> gains (post_observation d st1) = gains st
      \<and> dev (post_observation d st1) = dev st"
proof -
  from run_events_quiet [OF quiet inv(1,3,4), of x]
  obtain st1 where r: "run_events x evs st = Inr st1"
    and f: "pid_somme st1 = pid_somme st + sum_list (deltas_of evs)"
      "gain_index st1 = gain_index st" "gain_count st1 = gain_count st"
      "gains st1 = gains st" "dev st1 = dev st"
    by blast
  have "run_events x (evs @ [Observe d, Wake]) st = gain_wake x (post_observation d st1)"
    by (simp add: run_events_append r split: sum.splits)
  moreover have "pid_somme (post_observation d st1) = s"
    using f(1) total range by (simp add: post_observation_eq c_int_id)
  ultimately show ?thesis using r f by (simp add: post_observation_eq)
qed

lemma agc_running_table [simp]:
  "length (gains agc_running) = 100" "gains agc_running ! 15 = 280" "gains agc_running ! 13 = 229"
  "current_gain agc_running = 254" "sample_index agc_running = 409600"
  by (simp_all add: agc_running_def r820t_gains_def)

text \<open>
  C4 lets every observation that takes the accumulator beyond the threshold emit a step.
  A block of 819456 pairs of score \<open>- 480\<close>, delivered at the start of streaming, closes
  two windows, each 380 away from the target: the callback leaves the accumulator at 760
  and the event posted twice. The one wake that follows subtracts the threshold once and
  takes one step, to index 15, and leaves 460. \<open>on_peak\<close> of the specification, applied
  to the two observations in turn, takes two steps and leaves 160.
\<close>

theorem C4_counterexample:
  "pid_somme (feed_pairs 819456 158 128 agc_running) = 760
   \<and> max_event (feed_pairs 819456 158 128 agc_running) = 2
   \<and> gain_wake (test_ext 0 r820t_gains) (feed_pairs 819456 158 128 agc_running)
       = Inr (agc_running\<lparr>delta_gain := 380, pid_somme := 460, sample_index := 409344,
                          current_gain := 280, dev := [254, 280], gain_index := 15\<rparr>)
   \<and> on_peak_spec 0 (- 100) (- 480) = (80, 1)
   \<and> on_peak_spec 80 (- 100) (- 480) = (160, 1)"
  by (simp add: feed_two_windows gain_wake_eq new_gain_index_of_eq pid_steps clamp_index_def
      test_ext_def on_peak_spec_def)

text \<open>
  C4, as the code has it. The callback adds \<open>target - peak\<close> to the accumulator, a C
  \<open>int\<close>, whenever a window closes, and posts the event; it emits no step. A wake of the
  thread tests the accumulator once: above 300 the threshold is subtracted once and the
  index goes up by one step, below \<open>- 300\<close> it is added back once and the index goes
  down by one step, otherwise nothing changes; the index is then clamped. So a wake takes
  at most one step however many windows have closed since the last one. With the index
  in its range and the accumulator at zero, take any run of window closings and wakes, in
  any order, whose deltas have all their running sums within the band: no step is taken,
  the device is not touched, and the accumulator holds the sum. If then one more window
  takes the sum beyond 300 (within the range of an \<open>int\<close>), the wake that follows takes
  exactly one step up and leaves \<open>sum - 300\<close>; and symmetrically below \<open>- 300\<close>.
\<close>

theorem C4_accumulator:
  "(sample_index st \<le> 0 \<longrightarrow>
      window_count st =
        (post_observation (target_dbfs st - max_dbfs st) st)
          \<lparr>sample_index := max_samples st - 1, max_dbfs := DBFS_MIN\<rparr>
    \<and> pid_somme (window_count st) = c_int (pid_somme st + (target_dbfs st - max_dbfs st)))
   \<and> (gain_wake x st = Inr st' \<longrightarrow>
      pid_somme st' =
        (if 300 < pid_somme st then pid_somme st - 300
         else if pid_somme st < - 300 then pid_somme st + 300
         else pid_somme st)
    \<and> gain_index st' =
        clamp_index (gain_count st)
          (gain_index st + (if 300 < pid_somme st then 1
                            else if pid_somme st < - 300 then - 1 else 0)))
   \<and> (pid_somme st = 0 \<and> 2 \<le> gain_count st \<and> gain_count st \<le> int (length (gains st))
        \<and> 1 \<le> gain_index st \<and> gain_index st \<le> gain_count st - 1
        \<and> (\<forall>k. k \<le> length (deltas_of evs) \<longrightarrow> \<bar>sum_list (take k (deltas_of evs))\<bar> \<le> 300)
      \<longrightarrow>
        (\<exists>st1. run_events x evs st = Inr st1
           \<and> pid_somme st1 = sum_list (deltas_of evs)
           \<and> gain_index st1 = gain_index st \<and> dev st1 = dev st
           \<and> current_gain st1 = current_gain st)
      \<and> (300 < sum_list (deltas_of evs) + d \<and> sum_list (deltas_of evs) + d < 2147483648 \<longrightarrow>
          (\<exists>st2. run_events x (evs @ [Observe d, Wake]) st = Inr st2
             \<and> pid_somme st2 = sum_list (deltas_of evs) + d - 300
             \<and> gain_index st2 = clamp_index (gain_count st) (gain_index st + 1)
             \<and> dev st2 =
                 (if gain_index st + 1 \<le> gain_count st - 1
                  then snd (verbose_gain_set x (dev st) (gains st ! nat (gain_index st + 1)))
                  else dev st)))
      \<and> (sum_list (deltas_of evs) + d < - 300 \<and> - 2147483648 \<le> sum_list (deltas_of evs) + d
          \<longrightarrow>
          (\<exists>st2. run_events x (evs @ [Observe d, Wake]) st = Inr st2
             \<and> pid_somme st2 = sum_list (deltas_of evs) + d + 300
             \<and> gain_index st2 = clamp_index (gain_count st) (gain_index st - 1)
             \<and> dev st2 =
                 (if 1 \<le> gain_index st - 1
                  then snd (verbose_gain_set x (dev st) (gains st ! nat (gain_index st - 1)))
                  else dev st))))"
proof (intro conjI impI)
  assume "sample_index st \<le> 0"
  then show "window_count st =
      (post_observation (target_dbfs st - max_dbfs st) st)
        \<lparr>sample_index := max_samples st - 1, max_dbfs := DBFS_MIN\<rparr>"
    by (rule window_count_post)
next
  assume "sample_index st \<le> 0"
  then show "pid_somme (window_count st) = c_int (pid_somme st + (target_dbfs st - max_dbfs st))"
    by (simp add: window_count_close)
next
  assume w: "gain_wake x st = Inr st'"
  show "pid_somme st' =
        (if 300 < pid_somme st then pid_somme st - 300
         else if pid_somme st < - 300 then pid_somme st + 300
         else pid_somme st)"
    by (rule gain_wake_accumulator(1) [OF w])
  show "gain_index st' =
        clamp_index (gain_count st)
          (gain_index st + (if 300 < pid_somme st then 1
                            else if pid_somme st < - 300 then - 1 else 0))"
    by (rule gain_wake_accumulator(2) [OF w])
next
  assume h: "pid_somme st = 0 \<and> 2 \<le> gain_count st \<and> gain_count st \<le> int (length (gains st))
        \<and> 1 \<le> gain_index st \<and> gain_index st \<le> gain_count st - 1
        \<and> (\<forall>k. k \<le> length (deltas_of evs) \<longrightarrow> \<bar>sum_list (take k (deltas_of evs))\<bar> \<le> 300)"
  then have q: "\<bar>pid_somme st + sum_list (take k (deltas_of evs))\<bar> \<le> 300"
    if "k \<le> length (deltas_of evs)" for k
    using that by simp
  from h have inv: "2 \<le> gain_count st" "1 \<le> gain_index st" "gain_index st \<le> gain_count st - 1"
    by simp_all
  from run_events_quiet [OF q inv, of x] h
  show "\<exists>st1. run_events x evs st = Inr st1
           \<and> pid_somme st1 = sum_list (deltas_of evs)
           \<and> gain_index st1 = gain_index st \<and> dev st1 = dev st
           \<and> current_gain st1 = current_gain st"
    by auto
next
  assume h: "pid_somme st = 0 \<and> 2 \<le> gain_count st \<and> gain_count st \<le> int (length (gains st))
        \<and> 1 \<le> gain_index st \<and> gain_index st \<le> gain_count st - 1
        \<and> (\<forall>k. k \<le> length (deltas_of evs) \<longrightarrow> \<bar>sum_list (take k (deltas_of evs))\<bar> \<le> 300)"
    and up: "300 < sum_list (deltas_of evs) + d \<and> sum_list (deltas_of evs) + d < 2147483648"
  let ?s = "sum_list (deltas_of evs) + d"
  from h have q: "\<bar>pid_somme st + sum_list (take k (deltas_of evs))\<bar> \<le> 300"
    if "k \<le> length (deltas_of evs)" for k
    using that by simp
  from h have inv: "2 \<le> gain_count st" "gain_count st \<le> int (length (gains st))"
    "1 \<le> gain_index st" "gain_index st \<le> gain_count st - 1"
    by simp_all
  have t: "?s = pid_somme st + sum_list (deltas_of evs) + d" using h by simp
  have r: "- 2147483648 \<le> ?s" "?s < 2147483648" using up by simp_all
  from run_events_last_wake [OF q inv t r, of x]
  obtain st1 where e: "run_events x (evs @ [Observe d, Wake]) st = gain_wake x (post_observation d st1)"
    and f: "pid_somme (post_observation d st1) = ?s"
      "gain_index (post_observation d st1) = gain_index st"
      "gain_count (post_observation d st1) = gain_count st"
      "gains (post_observation d st1) = gains st"
      "dev (post_observation d st1) = dev st"
    by blast
  have "gain_wake x (post_observation d st1) =
      Inr (if gain_index (post_observation d st1) + 1 \<le> gain_count (post_observation d st1) - 1
           then (post_observation d st1)\<lparr>max_event := 0,
                   pid_somme := pid_somme (post_observation d st1) - 300,
                   current_gain := gains (post_observation d st1)
                                     ! nat (gain_index (post_observation d st1) + 1),
                   dev := snd (verbose_gain_set x (dev (post_observation d st1))
                            (gains (post_observation d st1)
                               ! nat (gain_index (post_observation d st1) + 1))),
                   gain_index := gain_index (post_observation d st1) + 1\<rparr>
           else (post_observation d st1)\<lparr>max_event := 0,
                   pid_somme := pid_somme (post_observation d st1) - 300\<rparr>)"
    using up inv by (intro gain_wake_up) (simp_all add: f)
  then show "\<exists>st2. run_events x (evs @ [Observe d, Wake]) st = Inr st2
             \<and> pid_somme st2 = sum_list (deltas_of evs) + d - 300
             \<and> gain_index st2 = clamp_index (gain_count st) (gain_index st + 1)
             \<and> dev st2 =
                 (if gain_index st + 1 \<le> gain_count st - 1
                  then snd (verbose_gain_set x (dev st) (gains st ! nat (gain_index st + 1)))
                  else dev st)"
    using inv by (simp add: e f clamp_index_def)
next
  assume h: "pid_somme st = 0 \<and> 2 \<le> gain_count st \<and> gain_count st \<le> int (length (gains st))
        \<and> 1 \<le> gain_index st \<and> gain_index st \<le> gain_count st - 1
        \<and> (\<forall>k. k \<le> length (deltas_of evs) \<longrightarrow> \<bar>sum_list (take k (deltas_of evs))\<bar> \<le> 300)"
    and down: "sum_list (deltas_of evs) + d < - 300 \<and> - 2147483648 \<le> sum_list (deltas_of evs) + d"
  let ?s = "sum_list (deltas_of evs) + d"
  from h have q: "\<bar>pid_somme st + sum_list (take k (deltas_of evs))\<bar> \<le> 300"
    if "k \<le> length (deltas_of evs)" for k
    using that by simp
  from h have inv: "2 \<le> gain_count st" "gain_count st \<le> int (length (gains st))"
    "1 \<le> gain_index st" "gain_index st \<le> gain_count st - 1"
    by simp_all
  have t: "?s = pid_somme st + sum_list (deltas_of evs) + d" using h by simp
  have r: "- 2147483648 \<le> ?s" "?s < 2147483648" using down by simp_all
  from run_events_last_wake [OF q inv t r, of x]
  obtain st1 where e: "run_events x (evs @ [Observe d, Wake]) st = gain_wake x (post_observation d st1)"
    and f: "pid_somme (post_observation d st1) = ?s"
      "gain_index (post_observation d st1) = gain_index st"
      "gain_count (post_observation d st1) = gain_count st"
      "gains (post_observation d st1) = gains st"
      "dev (post_observation d st1) = dev st"
    by blast
  have "gain_wake x (post_observation d st1) =
      Inr (if 1 \<le> gain_index (post_observation d st1) - 1
           then (post_observation d st1)\<lparr>max_event := 0,
                   pid_somme := pid_somme (post_observation d st1) + 300,
                   current_gain := gains (post_observation d st1)
                                     ! nat (gain_index (post_observation d st1) - 1),
                   dev := snd (verbose_gain_set x (dev (post_observation d st1))
                            (gains (post_observation d st1)
                               ! nat (gain_index (post_observation d st1) - 1))),
                   gain_index := gain_index (post_observation d st1) - 1\<rparr>
           else (post_observation d st1)\<lparr>max_event := 0,
                   pid_somme := pid_somme (post_observation d st1) + 300\<rparr>)"
    using down inv by (intro gain_wake_down) (simp_all add: f)
  then show "\<exists>st2. run_events x (evs @ [Observe d, Wake]) st = Inr st2
             \<and> pid_somme st2 = sum_list (deltas_of evs) + d + 300
             \<and> gain_index st2 = clamp_index (gain_count st) (gain_index st - 1)
             \<and> dev st2 =
                 (if 1 \<le> gain_index st - 1
                  then snd (verbose_gain_set x (dev st) (gains st ! nat (gain_index st - 1)))
                  else dev st)"
    using inv by (simp add: e f clamp_index_def)
qed

theorem C4_accumulator_witness:
  "pid_somme (window_count (agc_running\<lparr>sample_index := 0\<rparr>)) = 380
   \<and> (\<exists>st1. run_events (test_ext 0 r820t_gains)
               [Observe 100, Wake, Observe 100, Observe 50, Wake, Wake] agc_running = Inr st1
           \<and> pid_somme st1 = 250 \<and> gain_index st1 = 14 \<and> dev st1 = [254])
   \<and> (\<exists>st2. run_events (test_ext 0 r820t_gains)
               ([Observe 200, Observe 100, Wake] @ [Observe 150, Wake]) agc_running = Inr st2
           \<and> pid_somme st2 = 150 \<and> gain_index st2 = 15 \<and> dev st2 = [254, 280])
   \<and> (\<exists>st2. run_events (test_ext 0 r820t_gains)
               ([Observe (- 200), Wake, Observe (- 100)] @ [Observe (- 150), Wake]) agc_running
               = Inr st2
           \<and> pid_somme st2 = - 150 \<and> gain_index st2 = 13 \<and> dev st2 = [254, 229])
   \<and> gain_wake (test_ext 0 r820t_gains) (agc_running\<lparr>pid_somme := 760\<rparr>)
       = Inr (agc_running\<lparr>pid_somme := 460, current_gain := 280, dev := [254, 280],
                          gain_index := 15\<rparr>)
   \<and> pid_somme (agc_running\<lparr>pid_somme := 460, current_gain := 280, dev := [254, 280],
                          gain_index := 15\<rparr>) = 760 - 300
   \<and> gain_index (agc_running\<lparr>pid_somme := 460, current_gain := 280, dev := [254, 280],
                          gain_index := 15\<rparr>) = clamp_index 29 (14 + 1)"
proof -
  let ?x = "test_ext 0 r820t_gains"
  have three: "k = 0 \<or> k = 1 \<or> k = 2 \<or> k = 3" if "k \<le> 3" for k :: nat
    using that by linarith
  have two: "k = 0 \<or> k = 1 \<or> k = 2" if "k \<le> 2" for k :: nat
    using that by linarith
  have q1: "\<forall>k. k \<le> length (deltas_of [Observe 100, Wake, Observe 100, Observe 50, Wake, Wake])
      \<longrightarrow> \<bar>sum_list (take k (deltas_of [Observe 100, Wake, Observe 100, Observe 50, Wake, Wake]))\<bar>
          \<le> 300"
    using three by (fastforce simp: numeral_2_eq_2 numeral_3_eq_3)
  have q2: "\<forall>k. k \<le> length (deltas_of [Observe 200, Observe 100, Wake])
      \<longrightarrow> \<bar>sum_list (take k (deltas_of [Observe 200, Observe 100, Wake]))\<bar> \<le> 300"
    using two by (fastforce simp: numeral_2_eq_2)
  have q3: "\<forall>k. k \<le> length (deltas_of [Observe (- 200), Wake, Observe (- 100)])
      \<longrightarrow> \<bar>sum_list (take k (deltas_of [Observe (- 200), Wake, Observe (- 100)]))\<bar> \<le> 300"
    using two by (fastforce simp: numeral_2_eq_2)
  note a = C4_accumulator [where st = "agc_running\<lparr>sample_index := 0\<rparr>" and x = ?x
      and st' = agc_running and evs = "[]" and d = 0]
  have a1: "pid_somme (window_count (agc_running\<lparr>sample_index := 0\<rparr>)) = 380"
    using a [THEN conjunct1, THEN mp, THEN conjunct2] by (simp add: DBFS_MIN_def c_int_def)
  have inv: "pid_somme agc_running = 0 \<and> 2 \<le> gain_count agc_running
      \<and> gain_count agc_running \<le> int (length (gains agc_running))
      \<and> 1 \<le> gain_index agc_running \<and> gain_index agc_running \<le> gain_count agc_running - 1"
    by simp
  note b = C4_accumulator [where st = agc_running and x = ?x and st' = agc_running
      and evs = "[Observe 100, Wake, Observe 100, Observe 50, Wake, Wake]" and d = 0,
      THEN conjunct2, THEN conjunct2, THEN mp, THEN conjunct1]
  have b1: "\<exists>st1. run_events ?x [Observe 100, Wake, Observe 100, Observe 50, Wake, Wake] agc_running
      = Inr st1 \<and> pid_somme st1 = 250 \<and> gain_index st1 = 14 \<and> dev st1 = [254]"
    using b inv q1 by (simp del: run_events.simps) blast
  note c = C4_accumulator [where st = agc_running and x = ?x and st' = agc_running
      and evs = "[Observe 200, Observe 100, Wake]" and d = 150,
      THEN conjunct2, THEN conjunct2, THEN mp, THEN conjunct2, THEN conjunct1, THEN mp]
  have c1: "\<exists>st2. run_events ?x ([Observe 200, Observe 100, Wake] @ [Observe 150, Wake]) agc_running
      = Inr st2 \<and> pid_somme st2 = 150 \<and> gain_index st2 = 15 \<and> dev st2 = [254, 280]"
    using c inv q2 by (simp add: clamp_index_def test_ext_def del: run_events.simps append.simps) simp
  note d = C4_accumulator [where st = agc_running and x = ?x and st' = agc_running
      and evs = "[Observe (- 200), Wake, Observe (- 100)]" and d = "- 150",
      THEN conjunct2, THEN conjunct2, THEN mp, THEN conjunct2, THEN conjunct2, THEN mp]
  have d1: "\<exists>st2. run_events ?x ([Observe (- 200), Wake, Observe (- 100)] @ [Observe (- 150), Wake])
      agc_running = Inr st2 \<and> pid_somme st2 = - 150 \<and> gain_index st2 = 13 \<and> dev st2 = [254, 229]"
    using d inv q3 by (simp add: clamp_index_def test_ext_def del: run_events.simps append.simps) simp
  have e0: "gain_wake ?x (agc_running\<lparr>pid_somme := 760\<rparr>)
       = Inr (agc_running\<lparr>pid_somme := 460, current_gain := 280, dev := [254, 280],
                          gain_index := 15\<rparr>)"
    by (simp add: gain_wake_eq new_gain_index_of_eq pid_steps clamp_index_def test_ext_def)
  note e = C4_accumulator [where st = "agc_running\<lparr>pid_somme := 760\<rparr>" and x = ?x
      and st' = "agc_running\<lparr>pid_somme := 460, current_gain := 280, dev := [254, 280],
                          gain_index := 15\<rparr>" and evs = "[]" and d = 0]
  have e1: "pid_somme (agc_running\<lparr>pid_somme := 460, current_gain := 280, dev := [254, 280],
                          gain_index := 15\<rparr>) = 760 - 300
      \<and> gain_index (agc_running\<lparr>pid_somme := 460, current_gain := 280, dev := [254, 280],
                          gain_index := 15\<rparr>) = clamp_index 29 (14 + 1)"
    using e e0 by simp
  from a1 b1 c1 d1 e0 e1 show ?thesis by (simp only:)
qed

subsection \<open>The start of the gain control\<close>

lemma c_div_nonneg: "0 \<le> a \<Longrightarrow> c_div a b = a div b"
  by (simp add: c_div_def)

text \<open>
  C10. With a negative gain argument \<open>main\<close> asks the tuner for its gains, sets
  \<open>gain_index\<close> to half their number (the division of C, which for a number that is not
  negative is \<open>div\<close>), reads the gain at that index, writes it to the device with one
  call of \<open>verbose_gain_set\<close>, and sets the target, the window length
  \<open>samp_rate / 5\<close>, the counter, the table and the event for the streaming that
  follows.
\<close>

theorem C10_agc_start:
  assumes "gain < 0"
    and "rtlsdr_get_tuner_gains x (dev st) = (count, vals)"
    and "length vals \<le> length (gains st)"
    and "gains_read (vals @ drop (length vals) (gains st)) (c_div count 2) = Inr g"
  shows "main_gain x gain st =
      Inr (st\<lparr>gain_count := count,
              gains := vals @ drop (length vals) (gains st),
              gain_index := c_div count 2,
              current_gain := g,
              dev := snd (verbose_gain_set x (dev st) g),
              target_dbfs := gain,
              max_samples := int (samp_rate st div 5),
              sample_index := int (samp_rate st div 5),
              dbfs_lut := dbfs_lut_init (logf x) (rnd x),
              max_event := 0\<rparr>)
    \<and> (0 \<le> count \<longrightarrow> c_div count 2 = count div 2)"
  using assms
  by (simp add: main_gain_def initialize_gains_def max_thread_init_def MAX_HZ_def c_div_nonneg)

lemma main_gain_running:
  "main_gain (test_ext 0 r820t_gains) (- 100) (globals0 [] 2048000) = Inr agc_running"
  by (simp add: main_gain_def initialize_gains_def max_thread_init_def MAX_HZ_def c_div_def
      test_ext_def r820t_gains_def globals0_def gains_read_def agc_running_def)

theorem C10_agc_start_witness:
  "main_gain (test_ext 0 r820t_gains) (- 100) (globals0 [] 2048000) = Inr agc_running
   \<and> gain_index agc_running = 29 div 2
   \<and> dev agc_running = [r820t_gains ! 14]"
proof -
  have g: "rtlsdr_get_tuner_gains (test_ext 0 r820t_gains) (dev (globals0 [] 2048000))
      = (29, r820t_gains)"
    by (simp add: test_ext_def r820t_gains_def)
  have l: "length r820t_gains \<le> length (gains (globals0 [] 2048000))"
    by (simp add: r820t_gains_def globals0_def)
  have r: "gains_read (r820t_gains @ drop (length r820t_gains) (gains (globals0 [] 2048000)))
      (c_div 29 2) = Inr 254"
    by (simp add: gains_read_def c_div_def r820t_gains_def globals0_def)
  have "(- 100 :: int) < 0" by simp
  from C10_agc_start [OF this g l r]
  show ?thesis
    by (simp add: c_div_def test_ext_def globals0_def agc_running_def r820t_gains_def)
qed

end
